theory Spec2Isabelle
  imports Complex_Main
begin

section \<open>Bootstrapping demonstration: data generation and bootstrap engine\<close>

text \<open>
  The development embeds the computational core of \<^verbatim>\<open>streamlit-app.py\<close>:
  \<^verbatim>\<open>generate_data\<close>, \<^verbatim>\<open>resample\<close>, \<^verbatim>\<open>bootstrap_correlation\<close> and the three
  summary computations of the script (\<^verbatim>\<open>np.histogram\<close>, \<^verbatim>\<open>np.mean\<close>,
  \<^verbatim>\<open>np.percentile\<close>).

  Modelling conventions.
  \<^item> Numbers are exact reals, and NaN is \<open>None\<close> of \<open>real option\<close>. Rounding is
    left out where it only perturbs a result, and is a parameter of the model
    (\<open>rounding\<close>) where it decides the result: the correlation of a sample with a
    constant column.
  \<^item> An array of shape \<open>(n, 2)\<close> is a list of \<open>n\<close> pairs; column 0 is \<open>map fst\<close>,
    column 1 is \<open>map snd\<close>.
  \<^item> The script draws from NumPy's global generator. The generator is an explicit state
    of an arbitrary type \<open>'g\<close>, threaded through every call, and the two library
    routines that consume it (\<^verbatim>\<open>np.random.randint\<close>, \<^verbatim>\<open>np.random.multivariate_normal\<close>)
    are parameters of the model; what the library documents about them is stated as a
    contract (\<open>randint_ok\<close>, \<open>mvnormal_ok\<close>).
  \<^item> A Python exception is a value \<open>Inl e\<close> of a sum type.
\<close>

subsection \<open>Data model\<close>

datatype error = ValueError | IndexError

type_synonym dataset = "(real \<times> real) list"

text \<open>\<^verbatim>\<open>np.random.randint(high, size=m)\<close> on generator state \<open>g\<close>, as \<open>randint g high m\<close>.\<close>

type_synonym 'g randint = "'g \<Rightarrow> nat \<Rightarrow> nat \<Rightarrow> error + (nat list \<times> 'g)"

text \<open>\<^verbatim>\<open>np.random.multivariate_normal(mean, cov, n)\<close> on generator state \<open>g\<close>.\<close>

type_synonym 'g mvnormal = "'g \<Rightarrow> real list \<Rightarrow> real list list \<Rightarrow> int \<Rightarrow> error + (dataset \<times> 'g)"

text \<open>
  The documented behaviour of \<^verbatim>\<open>randint\<close> for a positive bound: it returns \<open>m\<close>
  integers, each in \<open>[0, high)\<close>. Nothing is assumed for \<open>high = 0\<close>.
\<close>

definition randint_ok :: "'g randint \<Rightarrow> bool" where
  "randint_ok randint \<longleftrightarrow>
     (\<forall>g high m. 0 < high \<longrightarrow>
        (\<exists>idx g'. randint g high m = Inr (idx, g') \<and> length idx = m
                  \<and> list_all (\<lambda>i. i < high) idx))"

subsection \<open>Correlation coefficient (\<^verbatim>\<open>np.corrcoef\<close>)\<close>

definition np_mean_real :: "real list \<Rightarrow> real" where
  "np_mean_real xs = sum_list xs / real (length xs)"

text \<open>
  One entry of \<^verbatim>\<open>np.cov\<close> (rows are variables, \<open>ddof = 1\<close>): the rows are centred
  by their averages, multiplied, summed, and divided by \<open>N - 1\<close>.
\<close>

definition np_cov :: "real list \<Rightarrow> real list \<Rightarrow> real" where
  "np_cov xs ys =
     (\<Sum>(x, y) \<leftarrow> zip xs ys. (x - np_mean_real xs) * (y - np_mean_real ys))
       / (real (length xs) - 1)"

definition clip :: "real \<Rightarrow> real \<Rightarrow> real \<Rightarrow> real" where
  "clip lo hi x = min hi (max lo x)"

text \<open>
  \<^verbatim>\<open>np.corrcoef(sample.T)[0, 1]\<close>: the covariance entry is divided by both standard
  deviations and the quotient is clipped to \<open>[-1, 1]\<close>. With fewer than two
  observations the normalisation \<open>N - 1\<close> is not positive and the entry is NaN.

  A column whose variance is zero is where exact and floating-point arithmetic part.
  When the column holds only zeros, its average and its deviations are exactly zero in
  floating point too, and the quotient is \<open>0/0\<close>, NaN. For any other constant column the
  computed average of \<open>n\<close> copies of \<open>x\<close> is in general not \<open>x\<close>, the deviations are
  tiny numbers instead of zeros, and the entry is whatever the rounding errors yield: NaN
  or a number (\<open>1.0\<close> for three copies of \<open>(0.1, 0.2)\<close>), clipped like every other
  entry. Exact reals do not determine that result; it is the parameter \<open>rounding\<close>
  of the model, about which nothing is assumed.
\<close>

type_synonym rounding = "dataset \<Rightarrow> real option"

definition zero_column :: "dataset \<Rightarrow> bool" where
  "zero_column sample \<longleftrightarrow>
     list_all (\<lambda>p. fst p = 0) sample \<or> list_all (\<lambda>p. snd p = 0) sample"

definition np_corrcoef01 :: "rounding \<Rightarrow> dataset \<Rightarrow> real option" where
  "np_corrcoef01 rounding sample =
     (let xs = map fst sample; ys = map snd sample;
          c00 = np_cov xs xs; c01 = np_cov xs ys; c11 = np_cov ys ys
      in if length sample < 2 then None
         else if c00 = 0 \<or> c11 = 0 then
           (if zero_column sample then None
            else map_option (clip (-1) 1) (rounding sample))
         else Some (clip (-1) 1 (c01 / sqrt c00 / sqrt c11)))"

text \<open>
  The textbook definitions the results are compared with: the Pearson coefficient
  \<open>r = \<Sum>(x - mx)(y - my) / sqrt (\<Sum>(x - mx)\<^sup>2 * \<Sum>(y - my)\<^sup>2)\<close>, and a column of zero
  variance.
\<close>

definition sq_dev :: "real list \<Rightarrow> real" where
  "sq_dev xs = (\<Sum>x \<leftarrow> xs. (x - np_mean_real xs) * (x - np_mean_real xs))"

definition co_dev :: "real list \<Rightarrow> real list \<Rightarrow> real" where
  "co_dev xs ys = (\<Sum>(x, y) \<leftarrow> zip xs ys. (x - np_mean_real xs) * (y - np_mean_real ys))"

definition pearson_r :: "dataset \<Rightarrow> real" where
  "pearson_r sample =
     co_dev (map fst sample) (map snd sample)
       / sqrt (sq_dev (map fst sample) * sq_dev (map snd sample))"

definition zero_variance :: "real list \<Rightarrow> bool" where
  "zero_variance xs \<longleftrightarrow> sq_dev xs = 0"

definition degenerate :: "dataset \<Rightarrow> bool" where
  "degenerate sample \<longleftrightarrow>
     length sample < 2 \<or> zero_variance (map fst sample) \<or> zero_variance (map snd sample)"

subsection \<open>\<^verbatim>\<open>resample\<close> and \<^verbatim>\<open>bootstrap_correlation\<close>\<close>

text \<open>
  Indexing an array with an array of indices, \<^verbatim>\<open>data[idx]\<close>: a new array holding the
  selected rows; an index out of range raises \<^verbatim>\<open>IndexError\<close>.
\<close>

definition take_rows :: "'a list \<Rightarrow> nat list \<Rightarrow> error + 'a list" where
  "take_rows a idx =
     (if list_all (\<lambda>i. i < length a) idx then Inr (map (\<lambda>i. a ! i) idx)
      else Inl IndexError)"

definition resample :: "'g randint \<Rightarrow> 'g \<Rightarrow> dataset \<Rightarrow> error + (dataset \<times> 'g)" where
  "resample randint g data =
     (case randint g (length data) (length data) of
        Inl e \<Rightarrow> Inl e
      | Inr (idx, g') \<Rightarrow>
          (case take_rows data idx of
             Inl e \<Rightarrow> Inl e
           | Inr sample \<Rightarrow> Inr (sample, g')))"

text \<open>
  The loop of \<^verbatim>\<open>bootstrap_correlation\<close>: \<open>k\<close> rounds remain, \<open>correlations\<close> is the
  list built so far, \<open>g\<close> the generator state.
\<close>

fun boot_loop ::
  "'g randint \<Rightarrow> rounding \<Rightarrow> dataset \<Rightarrow> nat \<Rightarrow> real option list \<Rightarrow> 'g
     \<Rightarrow> error + (real option list \<times> 'g)"
where
  "boot_loop randint rounding data 0 correlations g = Inr (correlations, g)"
| "boot_loop randint rounding data (Suc k) correlations g =
     (case resample randint g data of
        Inl e \<Rightarrow> Inl e
      | Inr (sample, g') \<Rightarrow>
          boot_loop randint rounding data k (correlations @ [np_corrcoef01 rounding sample]) g')"

text \<open>\<^verbatim>\<open>range(n_iterations)\<close> is empty for a negative count.\<close>

definition bootstrap_correlation ::
  "'g randint \<Rightarrow> rounding \<Rightarrow> 'g \<Rightarrow> dataset \<Rightarrow> int \<Rightarrow> error + (real option list \<times> 'g)"
where
  "bootstrap_correlation randint rounding g data n_iterations =
     boot_loop randint rounding data (nat n_iterations) [] g"

text \<open>
  The rounds as the specification describes them: the generator state before round \<open>i\<close>,
  the indices drawn in round \<open>i\<close>, and the bootstrap sample of round \<open>i\<close>.
\<close>

definition advance :: "'g randint \<Rightarrow> nat \<Rightarrow> 'g \<Rightarrow> 'g" where
  "advance randint n g = (case randint g n n of Inl e \<Rightarrow> g | Inr (idx, g') \<Rightarrow> g')"

fun draw_state :: "'g randint \<Rightarrow> nat \<Rightarrow> 'g \<Rightarrow> nat \<Rightarrow> 'g" where
  "draw_state randint n g 0 = g"
| "draw_state randint n g (Suc i) = draw_state randint n (advance randint n g) i"

definition round_indices :: "'g randint \<Rightarrow> nat \<Rightarrow> 'g \<Rightarrow> nat \<Rightarrow> nat list" where
  "round_indices randint n g i =
     (case randint (draw_state randint n g i) n n of Inl e \<Rightarrow> [] | Inr (idx, g') \<Rightarrow> idx)"

definition bootstrap_sample :: "'g randint \<Rightarrow> 'g \<Rightarrow> dataset \<Rightarrow> nat \<Rightarrow> dataset" where
  "bootstrap_sample randint g data i =
     map (\<lambda>j. data ! j) (round_indices randint (length data) g i)"

subsection \<open>\<^verbatim>\<open>generate_data\<close>\<close>

definition generate_data :: "'g mvnormal \<Rightarrow> 'g \<Rightarrow> int \<Rightarrow> real \<Rightarrow> error + (dataset \<times> 'g)" where
  "generate_data multivariate_normal g n correlation =
     (let mean = [0, 0];
          cov = [[1, correlation], [correlation, 1]]
      in multivariate_normal g mean cov n)"

text \<open>
  A covariance matrix of a bivariate distribution: two rows of two entries, symmetric
  and positive semi-definite (for a symmetric \<open>2 \<times> 2\<close> matrix: non-negative diagonal
  and non-negative determinant).
\<close>

definition is_2x2 :: "real list list \<Rightarrow> bool" where
  "is_2x2 c \<longleftrightarrow> length c = 2 \<and> list_all (\<lambda>r. length r = 2) c"

definition psd2 :: "real list list \<Rightarrow> bool" where
  "psd2 c \<longleftrightarrow>
     is_2x2 c \<and> c ! 0 ! 1 = c ! 1 ! 0 \<and> 0 \<le> c ! 0 ! 0 \<and> 0 \<le> c ! 1 ! 1
       \<and> c ! 0 ! 1 * c ! 1 ! 0 \<le> c ! 0 ! 0 * c ! 1 ! 1"

text \<open>
  The documented behaviour of \<^verbatim>\<open>multivariate_normal\<close> for a mean of length 2, a
  covariance matrix and a non-negative size \<open>n\<close>: an array of shape \<open>(n, 2)\<close>.
\<close>

definition mvnormal_ok :: "'g mvnormal \<Rightarrow> bool" where
  "mvnormal_ok multivariate_normal \<longleftrightarrow>
     (\<forall>g mean cov n. length mean = 2 \<and> psd2 cov \<and> 0 \<le> n \<longrightarrow>
        (\<exists>d g'. multivariate_normal g mean cov n = Inr (d, g') \<and> int (length d) = n))"

subsection \<open>Summary computations of the script\<close>

text \<open>\<^verbatim>\<open>np.mean\<close>: NaN if an element is NaN or the array is empty.\<close>

definition np_mean :: "real option list \<Rightarrow> real option" where
  "np_mean a =
     (case those a of
        None \<Rightarrow> None
      | Some xs \<Rightarrow> if xs = [] then None else Some (np_mean_real xs))"

text \<open>
  \<^verbatim>\<open>np.percentile\<close> with the default linear interpolation, on an array without NaN:
  the virtual index \<open>(n - 1) * q / 100\<close> is split into its floor and its fraction, and
  the result interpolates between the two neighbouring order statistics.
\<close>

definition percentile_linear :: "real list \<Rightarrow> real \<Rightarrow> real" where
  "percentile_linear a q =
     (let s = sort a; n = length a;
          v = (real n - 1) * (q / 100);
          lo = nat \<lfloor>v\<rfloor>;
          hi = min (Suc lo) (n - 1)
      in s ! lo + (s ! hi - s ! lo) * (v - real lo))"

text \<open>
  On an empty array \<^verbatim>\<open>np.percentile\<close> raises \<^verbatim>\<open>IndexError\<close>; a NaN in the array
  makes every requested percentile NaN.
\<close>

definition np_percentile :: "real option list \<Rightarrow> real list \<Rightarrow> error + real option list" where
  "np_percentile a qs =
     (if a = [] then Inl IndexError
      else case those a of
             None \<Rightarrow> Inr (map (\<lambda>q. None) qs)
           | Some xs \<Rightarrow> Inr (map (\<lambda>q. Some (percentile_linear xs q)) qs))"

definition confidence_interval :: "real option list \<Rightarrow> error + real option list" where
  "confidence_interval bootstrap_correlations =
     np_percentile bootstrap_correlations [25 / 10, 975 / 10]"

text \<open>
  \<^verbatim>\<open>np.histogram(a, bins, density=True)\<close> with an integer \<open>bins\<close>. The range is
  \<open>(min a, max a)\<close>, \<open>(0, 1)\<close> for an empty array, widened by one half on both sides
  when minimum and maximum coincide. The edges are \<open>bins + 1\<close> equally spaced points;
  a value falls into the bin given by the floor of its scaled offset, the maximum into
  the last bin. The density of a bin is its count divided by its width and by the
  total count.
\<close>

definition outer_edges :: "real list \<Rightarrow> real \<times> real" where
  "outer_edges a =
     (if a = [] then (0, 1)
      else let first_edge = Min (set a); last_edge = Max (set a)
           in if first_edge = last_edge then (first_edge - 1 / 2, last_edge + 1 / 2)
              else (first_edge, last_edge))"

definition bin_index :: "real \<Rightarrow> real \<Rightarrow> nat \<Rightarrow> real \<Rightarrow> nat" where
  "bin_index first_edge last_edge bins x =
     (let i = nat \<lfloor>(x - first_edge) / (last_edge - first_edge) * real bins\<rfloor>
      in if i = bins then i - 1 else i)"

definition np_histogram_density :: "real list \<Rightarrow> nat \<Rightarrow> real option list \<times> real list" where
  "np_histogram_density a bins =
     (let (first_edge, last_edge) = outer_edges a;
          bin_edges = map (\<lambda>k. first_edge + (last_edge - first_edge) * real k / real bins)
                        [0..<Suc bins];
          n = map (\<lambda>k. length (filter (\<lambda>x. bin_index first_edge last_edge bins x = k) a))
                [0..<bins];
          db = map (\<lambda>k. bin_edges ! Suc k - bin_edges ! k) [0..<bins];
          total = sum_list n
      in (map (\<lambda>k. if total = 0 then None
                     else Some (real (n ! k) / (db ! k) / real total)) [0..<bins],
          bin_edges))"

text \<open>
  \<^verbatim>\<open>np.histogram\<close> rejects a bin count below one, and an array whose minimum or
  maximum is NaN, with \<^verbatim>\<open>ValueError\<close>.
\<close>

definition np_histogram ::
  "real option list \<Rightarrow> nat \<Rightarrow> error + (real option list \<times> real list)"
where
  "np_histogram a bins =
     (if bins = 0 then Inl ValueError
      else case those a of
             None \<Rightarrow> Inl ValueError
           | Some xs \<Rightarrow> Inr (np_histogram_density xs bins))"

definition hist_data :: "real option list \<Rightarrow> error + (real option list \<times> real list)" where
  "hist_data bootstrap_correlations = np_histogram bootstrap_correlations 30"


text \<open>
  The script from the generation of the data to the bootstrap distribution, and the
  three summaries it computes from the distribution, in the order of the script.
\<close>

definition run_pipeline ::
  "'g mvnormal \<Rightarrow> 'g randint \<Rightarrow> rounding \<Rightarrow> 'g \<Rightarrow> int \<Rightarrow> real \<Rightarrow> int
     \<Rightarrow> error + (dataset \<times> real option list \<times> 'g)"
where
  "run_pipeline multivariate_normal randint rounding g n_samples correlation n_bootstrap =
     (case generate_data multivariate_normal g n_samples correlation of
        Inl e \<Rightarrow> Inl e
      | Inr (data, g1) \<Rightarrow>
          (case bootstrap_correlation randint rounding g1 data n_bootstrap of
             Inl e \<Rightarrow> Inl e
           | Inr (bootstrap_correlations, g2) \<Rightarrow> Inr (data, bootstrap_correlations, g2)))"

definition summaries ::
  "real option list
     \<Rightarrow> error + ((real option list \<times> real list) \<times> real option \<times> real option list)"
where
  "summaries bootstrap_correlations =
     (case hist_data bootstrap_correlations of
        Inl e \<Rightarrow> Inl e
      | Inr h \<Rightarrow>
          (case confidence_interval bootstrap_correlations of
             Inl e \<Rightarrow> Inl e
           | Inr ci \<Rightarrow> Inr (h, np_mean bootstrap_correlations, ci)))"

subsection \<open>Arrays as objects\<close>

text \<open>
  For the question whether \<^verbatim>\<open>resample\<close> leaves its argument alone, arrays are objects
  in a store: a reference is a number, \<open>cells h p\<close> is the content of the array at
  reference \<open>p\<close>, and the references below \<open>next_free h\<close> are the ones in use.
  Indexing with an index array creates a new array (never a view of the old one), and
  nothing in \<^verbatim>\<open>resample\<close> or in the loop assigns to an existing array.
  \<^verbatim>\<open>np.corrcoef\<close> only reads its argument.
\<close>

record heap =
  cells :: "nat \<Rightarrow> dataset"
  next_free :: nat

definition alloc :: "heap \<Rightarrow> dataset \<Rightarrow> nat \<times> heap" where
  "alloc h rows =
     (next_free h, h\<lparr>cells := (cells h)(next_free h := rows), next_free := Suc (next_free h)\<rparr>)"

definition resample_heap :: "'g randint \<Rightarrow> 'g \<Rightarrow> heap \<Rightarrow> nat \<Rightarrow> error + (nat \<times> 'g \<times> heap)" where
  "resample_heap randint g h data =
     (case randint g (length (cells h data)) (length (cells h data)) of
        Inl e \<Rightarrow> Inl e
      | Inr (idx, g') \<Rightarrow>
          (case take_rows (cells h data) idx of
             Inl e \<Rightarrow> Inl e
           | Inr rows \<Rightarrow> (let (sample, h') = alloc h rows in Inr (sample, g', h'))))"

fun boot_loop_heap ::
  "'g randint \<Rightarrow> rounding \<Rightarrow> nat \<Rightarrow> nat \<Rightarrow> real option list \<Rightarrow> 'g \<Rightarrow> heap
     \<Rightarrow> error + (real option list \<times> 'g \<times> heap)"
where
  "boot_loop_heap randint rounding data 0 correlations g h = Inr (correlations, g, h)"
| "boot_loop_heap randint rounding data (Suc k) correlations g h =
     (case resample_heap randint g h data of
        Inl e \<Rightarrow> Inl e
      | Inr (sample, g', h') \<Rightarrow>
          boot_loop_heap randint rounding data k
            (correlations @ [np_corrcoef01 rounding (cells h' sample)]) g' h')"

definition bootstrap_correlation_heap ::
  "'g randint \<Rightarrow> rounding \<Rightarrow> 'g \<Rightarrow> heap \<Rightarrow> nat \<Rightarrow> int \<Rightarrow> error + (real option list \<times> 'g \<times> heap)"
where
  "bootstrap_correlation_heap randint rounding g h data n_iterations =
     boot_loop_heap randint rounding data (nat n_iterations) [] g h"

subsection \<open>The random source as a relation\<close>

text \<open>
  The script never seeds NumPy's global generator, which then starts from the entropy of
  the operating system: the outcome of a draw is not a function of anything the program
  holds. For the question of reproducibility a source is therefore a relation between a
  state, the arguments of a call and its possible outcomes, and the functions of the
  script are relations between their arguments and their possible results. A seeded
  source is one whose state determines the outcome of every call.
\<close>

type_synonym 'g draws = "'g \<Rightarrow> nat \<Rightarrow> nat \<Rightarrow> error + (nat list \<times> 'g) \<Rightarrow> bool"

type_synonym 'g samples =
  "'g \<Rightarrow> real list \<Rightarrow> real list list \<Rightarrow> int \<Rightarrow> error + (dataset \<times> 'g) \<Rightarrow> bool"

definition seeded_draws :: "'g draws \<Rightarrow> bool" where
  "seeded_draws draws \<longleftrightarrow>
     (\<forall>g high m r1 r2. draws g high m r1 \<longrightarrow> draws g high m r2 \<longrightarrow> r1 = r2)"

definition seeded_samples :: "'g samples \<Rightarrow> bool" where
  "seeded_samples samples \<longleftrightarrow>
     (\<forall>g mean cov n r1 r2. samples g mean cov n r1 \<longrightarrow> samples g mean cov n r2 \<longrightarrow> r1 = r2)"

definition generate_data_rel ::
  "'g samples \<Rightarrow> 'g \<Rightarrow> int \<Rightarrow> real \<Rightarrow> error + (dataset \<times> 'g) \<Rightarrow> bool"
where
  "generate_data_rel samples g n correlation r \<longleftrightarrow>
     (let mean = [0, 0];
          cov = [[1, correlation], [correlation, 1]]
      in samples g mean cov n r)"

inductive resample_rel :: "'g draws \<Rightarrow> 'g \<Rightarrow> dataset \<Rightarrow> error + (dataset \<times> 'g) \<Rightarrow> bool"
  for draws :: "'g draws"
where
  draw_raises:
    "draws g (length data) (length data) (Inl e) \<Longrightarrow> resample_rel draws g data (Inl e)"
| index_raises:
    "draws g (length data) (length data) (Inr (idx, g')) \<Longrightarrow> take_rows data idx = Inl e
     \<Longrightarrow> resample_rel draws g data (Inl e)"
| rows_taken:
    "draws g (length data) (length data) (Inr (idx, g')) \<Longrightarrow> take_rows data idx = Inr sample
     \<Longrightarrow> resample_rel draws g data (Inr (sample, g'))"

inductive boot_rel ::
  "'g draws \<Rightarrow> rounding \<Rightarrow> dataset \<Rightarrow> nat \<Rightarrow> real option list \<Rightarrow> 'g
     \<Rightarrow> error + (real option list \<times> 'g) \<Rightarrow> bool"
  for draws :: "'g draws" and rounding :: rounding and data :: dataset
where
  loop_done:
    "boot_rel draws rounding data 0 correlations g (Inr (correlations, g))"
| round_raises:
    "resample_rel draws g data (Inl e)
     \<Longrightarrow> boot_rel draws rounding data (Suc k) correlations g (Inl e)"
| round_appends:
    "resample_rel draws g data (Inr (sample, g'))
     \<Longrightarrow> boot_rel draws rounding data k (correlations @ [np_corrcoef01 rounding sample]) g' r
     \<Longrightarrow> boot_rel draws rounding data (Suc k) correlations g r"

definition bootstrap_correlation_rel ::
  "'g draws \<Rightarrow> rounding \<Rightarrow> 'g \<Rightarrow> dataset \<Rightarrow> int \<Rightarrow> error + (real option list \<times> 'g) \<Rightarrow> bool"
where
  "bootstrap_correlation_rel draws rounding g data n_iterations r \<longleftrightarrow>
     boot_rel draws rounding data (nat n_iterations) [] g r"

inductive run_pipeline_rel ::
  "'g samples \<Rightarrow> 'g draws \<Rightarrow> rounding \<Rightarrow> 'g \<Rightarrow> int \<Rightarrow> real \<Rightarrow> int
     \<Rightarrow> error + (dataset \<times> real option list \<times> 'g) \<Rightarrow> bool"
  for samples :: "'g samples" and draws :: "'g draws" and rounding :: rounding
where
  generation_raises:
    "generate_data_rel samples g n_samples correlation (Inl e)
     \<Longrightarrow> run_pipeline_rel samples draws rounding g n_samples correlation n_bootstrap (Inl e)"
| bootstrap_raises:
    "generate_data_rel samples g n_samples correlation (Inr (data, g1))
     \<Longrightarrow> bootstrap_correlation_rel draws rounding g1 data n_bootstrap (Inl e)
     \<Longrightarrow> run_pipeline_rel samples draws rounding g n_samples correlation n_bootstrap (Inl e)"
| pipeline_returns:
    "generate_data_rel samples g n_samples correlation (Inr (data, g1))
     \<Longrightarrow> bootstrap_correlation_rel draws rounding g1 data n_bootstrap
           (Inr (bootstrap_correlations, g2))
     \<Longrightarrow> run_pipeline_rel samples draws rounding g n_samples correlation n_bootstrap
           (Inr (data, bootstrap_correlations, g2))"

text \<open>A source given by a function of the state, as the other sections have it.\<close>

definition of_randint :: "'g randint \<Rightarrow> 'g draws" where
  "of_randint randint g high m r \<longleftrightarrow> randint g high m = r"

definition of_mvnormal :: "'g mvnormal \<Rightarrow> 'g samples" where
  "of_mvnormal multivariate_normal g mean cov n r \<longleftrightarrow> multivariate_normal g mean cov n = r"

text \<open>An unseeded source: every list of indices in range is a possible outcome.\<close>

definition any_draws :: "unit draws" where
  "any_draws g high m r \<longleftrightarrow>
     (\<exists>idx. r = Inr (idx, g) \<and> length idx = m \<and> list_all (\<lambda>i. i < high) idx)"

subsection \<open>Concrete generators for the examples\<close>

text \<open>
  A counter-based index source: in state \<open>g\<close> the \<open>k\<close>-th index is
  \<open>g * (k + 1) mod high\<close>, and the state advances by one.
\<close>

definition counter_randint :: "nat randint" where
  "counter_randint g high m =
     (if high = 0 then Inl ValueError
      else Inr (map (\<lambda>k. (g * (k + 1)) mod high) [0..<m], Suc g))"

text \<open>
  A stand-in for the rounding errors: the entry for a constant column is \<open>1\<close>, the
  value floating-point arithmetic yields for three copies of \<open>(0.1, 0.2)\<close>.
\<close>

definition rounding_one :: rounding where
  "rounding_one sample = Some 1"

text \<open>
  A stand-in for the normal sampler: in state \<open>g\<close> the \<open>k\<close>-th observation is the mean
  shifted by \<open>g + k\<close> along the direction \<open>(1, cov\<^sub>0\<^sub>1)\<close>; a negative size is
  rejected.
\<close>

definition affine_mvnormal :: "nat mvnormal" where
  "affine_mvnormal g mean cov n =
     (if n < 0 then Inl ValueError
      else Inr (map (\<lambda>k. (mean ! 0 + real (g + k), mean ! 1 + cov ! 0 ! 1 * real (g + k)))
                  [0..<nat n],
                g + nat n))"

text \<open>A store holding the example dataset at reference 0.\<close>

definition example_heap :: heap where
  "example_heap = \<lparr>cells = (\<lambda>p. [])(0 := [(0, 0), (1, 2), (2, 1)]), next_free = 1\<rparr>"

section \<open>Properties\<close>

lemma counter_randint_ok: "randint_ok counter_randint"
  by (simp add: randint_ok_def counter_randint_def list_all_iff)

lemma take_rows_in_range:
  "list_all (\<lambda>i. i < length a) idx \<Longrightarrow> take_rows a idx = Inr (map (\<lambda>i. a ! i) idx)"
  by (simp add: take_rows_def)

lemma resample_returns:
  assumes "randint_ok randint" and "data \<noteq> []"
  shows "\<exists>idx g'. randint g (length data) (length data) = Inr (idx, g')
           \<and> length idx = length data \<and> list_all (\<lambda>i. i < length data) idx
           \<and> resample randint g data = Inr (map (\<lambda>i. data ! i) idx, g')"
proof -
  from assms have "0 < length data" by simp
  with assms(1) obtain idx g' where
    r: "randint g (length data) (length data) = Inr (idx, g')"
    and l: "length idx = length data"
    and b: "list_all (\<lambda>i. i < length data) idx"
    unfolding randint_ok_def by blast
  from r b have "resample randint g data = Inr (map (\<lambda>i. data ! i) idx, g')"
    by (simp add: resample_def take_rows_in_range)
  with r l b show ?thesis by blast
qed

lemma boot_loop_length:
  assumes "randint_ok randint" and "data \<noteq> []"
  shows "\<exists>out g'. boot_loop randint rounding data k acc g = Inr (out, g')
           \<and> length out = length acc + k"
proof (induction k arbitrary: acc g)
  case 0
  show ?case by simp
next
  case (Suc k)
  from resample_returns [OF assms, of g] obtain s g1 where
    r: "resample randint g data = Inr (s, g1)" by blast
  from Suc.IH [of "acc @ [np_corrcoef01 rounding s]" g1] r show ?case by auto
qed

lemma round_indices_shift:
  "round_indices randint n g (Suc i) = round_indices randint n (advance randint n g) i"
  by (simp add: round_indices_def)

lemma bootstrap_sample_shift:
  "bootstrap_sample randint g data (Suc i) =
   bootstrap_sample randint (advance randint (length data) g) data i"
  by (simp only: bootstrap_sample_def round_indices_shift)

lemma draw_state_Suc: "draw_state randint n g (Suc i) = advance randint n (draw_state randint n g i)"
  by (induction i arbitrary: g) simp_all

lemma resample_round0:
  assumes "randint_ok randint" and "data \<noteq> []"
  shows "resample randint g data =
         Inr (bootstrap_sample randint g data 0, advance randint (length data) g)"
proof -
  from resample_returns [OF assms, of g] obtain idx g' where
    r: "randint g (length data) (length data) = Inr (idx, g')"
    and s: "resample randint g data = Inr (map (\<lambda>i. data ! i) idx, g')"
    by blast
  from r s show ?thesis
    by (simp add: bootstrap_sample_def round_indices_def advance_def)
qed

lemma boot_loop_rounds:
  assumes "randint_ok randint" and "data \<noteq> []"
  shows "boot_loop randint rounding data k acc g =
         Inr (acc @ map (\<lambda>i. np_corrcoef01 rounding (bootstrap_sample randint g data i)) [0..<k],
              draw_state randint (length data) g k)"
proof (induction k arbitrary: acc g)
  case 0
  show ?case by simp
next
  case (Suc k)
  let ?g1 = "advance randint (length data) g"
  have "boot_loop randint rounding data (Suc k) acc g =
        boot_loop randint rounding data k (acc @ [np_corrcoef01 rounding (bootstrap_sample randint g data 0)]) ?g1"
    by (simp add: resample_round0 [OF assms])
  also have "\<dots> = Inr ((acc @ [np_corrcoef01 rounding (bootstrap_sample randint g data 0)])
                        @ map (\<lambda>i. np_corrcoef01 rounding (bootstrap_sample randint ?g1 data i)) [0..<k],
                      draw_state randint (length data) ?g1 k)"
    by (rule Suc.IH)
  also have "map (\<lambda>i. np_corrcoef01 rounding (bootstrap_sample randint ?g1 data i)) [0..<k]
             = map (\<lambda>i. np_corrcoef01 rounding (bootstrap_sample randint g data (Suc i))) [0..<k]"
    by (simp only: bootstrap_sample_shift [of randint g data])
  finally show ?case
    by (simp add: upt_conv_Cons map_Suc_upt [symmetric] del: upt_Suc)
qed

lemma bootstrap_correlation_rounds_eq:
  assumes "randint_ok randint" and "data \<noteq> []"
  shows "bootstrap_correlation randint rounding g data B =
         Inr (map (\<lambda>i. np_corrcoef01 rounding (bootstrap_sample randint g data i)) [0..<nat B],
              draw_state randint (length data) g (nat B))"
  by (simp add: bootstrap_correlation_def boot_loop_rounds [OF assms])

lemma round_indices_drawn:
  assumes "randint_ok randint" and "0 < n"
  shows "randint (draw_state randint n g i) n n
           = Inr (round_indices randint n g i, draw_state randint n g (Suc i))
         \<and> length (round_indices randint n g i) = n
         \<and> list_all (\<lambda>j. j < n) (round_indices randint n g i)"
proof -
  from assms obtain idx g' where
    "randint (draw_state randint n g i) n n = Inr (idx, g')" "length idx = n"
    "list_all (\<lambda>j. j < n) idx"
    unfolding randint_ok_def by blast
  then show ?thesis
    by (simp add: round_indices_def draw_state_Suc advance_def del: draw_state.simps)
qed

lemma sum_list_quadratic:
  fixes f g :: "'a \<Rightarrow> real"
  shows "(\<Sum>p \<leftarrow> l. (t * f p - g p) * (t * f p - g p))
         = t * t * (\<Sum>p \<leftarrow> l. f p * f p) - 2 * t * (\<Sum>p \<leftarrow> l. f p * g p) + (\<Sum>p \<leftarrow> l. g p * g p)"
  by (induction l) (simp_all add: algebra_simps)

lemma sum_list_squares_nonneg:
  fixes f :: "'a \<Rightarrow> real"
  shows "0 \<le> (\<Sum>p \<leftarrow> l. f p * f p)"
  by (induction l) simp_all

lemma sum_list_squares_zero:
  fixes f :: "'a \<Rightarrow> real"
  assumes "(\<Sum>p \<leftarrow> l. f p * f p) = 0"
  shows "\<forall>p \<in> set l. f p = 0"
  using assms
proof (induction l)
  case Nil
  show ?case by simp
next
  case (Cons a l)
  have n: "0 \<le> (\<Sum>p \<leftarrow> l. f p * f p)" by (rule sum_list_squares_nonneg)
  have a: "0 \<le> f a * f a" by simp
  from Cons.prems have "f a * f a + (\<Sum>p \<leftarrow> l. f p * f p) = 0" by simp
  with n a have "f a * f a = 0" and "(\<Sum>p \<leftarrow> l. f p * f p) = 0" by linarith+
  with Cons.IH show ?case by simp
qed

lemma cauchy_schwarz_list:
  fixes f g :: "'a \<Rightarrow> real"
  shows "(\<Sum>p \<leftarrow> l. f p * g p) * (\<Sum>p \<leftarrow> l. f p * g p)
         \<le> (\<Sum>p \<leftarrow> l. f p * f p) * (\<Sum>p \<leftarrow> l. g p * g p)"
proof -
  let ?A = "\<Sum>p \<leftarrow> l. f p * f p" and ?B = "\<Sum>p \<leftarrow> l. g p * g p" and ?C = "\<Sum>p \<leftarrow> l. f p * g p"
  have A: "0 \<le> ?A" by (rule sum_list_squares_nonneg)
  show ?thesis
  proof (cases "?A = 0")
    case True
    then have "\<forall>p \<in> set l. f p = 0" by (rule sum_list_squares_zero)
    then have "map (\<lambda>p. f p * g p) l = map (\<lambda>p. 0) l" by simp
    then have "?C = 0" by (simp only: sum_list_0)
    with True show ?thesis by simp
  next
    case False
    with A have pos: "0 < ?A" by simp
    define t where "t = ?C / ?A"
    have "0 \<le> (\<Sum>p \<leftarrow> l. (t * f p - g p) * (t * f p - g p))"
      by (rule sum_list_squares_nonneg)
    then have "0 \<le> t * t * ?A - 2 * t * ?C + ?B"
      by (simp only: sum_list_quadratic)
    moreover have "t * t * ?A = ?C * ?C / ?A" and "2 * t * ?C = 2 * (?C * ?C / ?A)"
      using pos by (simp_all add: t_def)
    ultimately have "?C * ?C / ?A \<le> ?B" by simp
    with pos show ?thesis by (simp add: pos_divide_le_eq mult.commute)
  qed
qed

lemma co_dev_as_sum:
  "co_dev (map fst s) (map snd s)
   = (\<Sum>p \<leftarrow> s. (fst p - np_mean_real (map fst s)) * (snd p - np_mean_real (map snd s)))"
  by (simp add: co_dev_def zip_map_fst_snd split_def)

lemma sq_dev_as_sum:
  "sq_dev (map h s) = (\<Sum>p \<leftarrow> s. (h p - np_mean_real (map h s)) * (h p - np_mean_real (map h s)))"
  by (simp add: sq_dev_def comp_def)

lemma sq_dev_nonneg: "0 \<le> sq_dev xs"
  unfolding sq_dev_def by (rule sum_list_squares_nonneg)

lemma co_dev_square_le:
  "co_dev (map fst s) (map snd s) * co_dev (map fst s) (map snd s)
   \<le> sq_dev (map fst s) * sq_dev (map snd s)"
  unfolding co_dev_as_sum sq_dev_as_sum by (rule cauchy_schwarz_list)

lemma pearson_r_bounds: "- 1 \<le> pearson_r s \<and> pearson_r s \<le> 1"
proof -
  let ?C = "co_dev (map fst s) (map snd s)"
  let ?P = "sq_dev (map fst s) * sq_dev (map snd s)"
  have P: "0 \<le> ?P" by (simp add: sq_dev_nonneg)
  have "\<bar>?C\<bar> = sqrt (?C * ?C)" by simp
  also have "\<dots> \<le> sqrt ?P" using co_dev_square_le by (simp only: real_sqrt_le_iff)
  finally have le: "\<bar>?C\<bar> \<le> sqrt ?P" .
  have "\<bar>pearson_r s\<bar> \<le> 1"
  proof (cases "sqrt ?P = 0")
    case True
    have "pearson_r s = 0" unfolding pearson_r_def True by simp
    then show ?thesis by simp
  next
    case False
    have "0 \<le> sqrt ?P" using P by (rule real_sqrt_ge_zero)
    with False have "0 < sqrt ?P" by linarith
    with le show ?thesis by (simp add: pearson_r_def abs_divide del: real_sqrt_mult)
  qed
  then show ?thesis by (simp add: abs_le_iff)
qed

lemma quotient_normalise:
  fixes a b c m :: real
  assumes "0 < m"
  shows "c / m / sqrt (a / m) / sqrt (b / m) = c / sqrt (a * b)"
proof -
  have h: "sqrt (a / m) * sqrt (b / m) = sqrt (a * b) / m"
    using assms by (simp add: real_sqrt_divide real_sqrt_mult)
  have "c / m / sqrt (a / m) / sqrt (b / m) = c / m / (sqrt (a / m) * sqrt (b / m))"
    by simp
  also have "\<dots> = c / m / (sqrt (a * b) / m)"
    by (simp only: h)
  also have "\<dots> = c / sqrt (a * b)" using assms by simp
  finally show ?thesis .
qed

lemma np_cov_co_dev: "np_cov xs ys = co_dev xs ys / (real (length xs) - 1)"
  by (simp add: np_cov_def co_dev_def)

lemma co_dev_self: "co_dev xs xs = sq_dev xs"
  by (simp add: co_dev_def sq_dev_def zip_same_conv_map comp_def)

lemma np_cov_self_zero:
  "2 \<le> length xs \<Longrightarrow> np_cov xs xs = 0 \<longleftrightarrow> zero_variance xs"
  by (simp add: np_cov_co_dev co_dev_self zero_variance_def)

lemma degenerate_iff_cov:
  "degenerate s \<longleftrightarrow>
     length s < 2 \<or> np_cov (map fst s) (map fst s) = 0 \<or> np_cov (map snd s) (map snd s) = 0"
  using np_cov_self_zero [of "map fst s"] np_cov_self_zero [of "map snd s"]
  by (auto simp: degenerate_def)

lemma np_corrcoef01_zero_column:
  assumes "length s < 2 \<or> (degenerate s \<and> zero_column s)"
  shows "np_corrcoef01 rounding s = None"
  using assms by (auto simp: np_corrcoef01_def Let_def degenerate_iff_cov)

lemma np_corrcoef01_range:
  assumes "np_corrcoef01 rounding s = Some r"
  shows "- 1 \<le> r \<and> r \<le> 1"
  using assms
  by (auto simp: np_corrcoef01_def Let_def clip_def split: if_splits)

lemma np_corrcoef01_pearson:
  assumes "\<not> degenerate s"
  shows "np_corrcoef01 rounding s = Some (pearson_r s)"
proof -
  let ?xs = "map fst s" and ?ys = "map snd s"
  let ?m = "real (length s) - 1"
  from assms have len: "2 \<le> length s" and zx: "sq_dev ?xs \<noteq> 0" and zy: "sq_dev ?ys \<noteq> 0"
    by (simp_all add: degenerate_def zero_variance_def)
  from len have m: "0 < ?m" by simp
  have q: "np_cov ?xs ?ys / sqrt (np_cov ?xs ?xs) / sqrt (np_cov ?ys ?ys) = pearson_r s"
    using quotient_normalise [OF m, of "co_dev ?xs ?ys" "sq_dev ?xs" "sq_dev ?ys"]
    by (simp add: np_cov_co_dev co_dev_self pearson_r_def)
  from len zx zy have "np_corrcoef01 rounding s
      = Some (clip (-1) 1 (np_cov ?xs ?ys / sqrt (np_cov ?xs ?xs) / sqrt (np_cov ?ys ?ys)))"
    using np_cov_self_zero [of ?xs] np_cov_self_zero [of ?ys]
    by (simp add: np_corrcoef01_def Let_def zero_variance_def)
  also have "\<dots> = Some (pearson_r s)"
    using pearson_r_bounds [of s] by (simp only: q) (simp add: clip_def)
  finally show ?thesis .
qed

subsection \<open>The worked example\<close>

lemma draw_state_2: "draw_state randint n g 2 = advance randint n (advance randint n g)"
  by (simp add: numeral_2_eq_2)

lemma example_advance:
  "advance counter_randint 3 1 = 2" "advance counter_randint 3 2 = 3"
  by (simp_all add: advance_def counter_randint_def)

lemma example_draws:
  "counter_randint 1 3 3 = Inr ([1, 2, 0], 2)"
  "counter_randint 2 3 3 = Inr ([2, 1, 0], 3)"
  "counter_randint 3 3 3 = Inr ([0, 0, 0], 4)"
  by (simp_all add: counter_randint_def upt_rec)

lemma example_length: "length [(0, 0), (1, 2), (2, 1) :: real \<times> real] = 3"
  by simp

lemma example_sample2:
  "bootstrap_sample counter_randint 1 [(0, 0), (1, 2), (2, 1)] 2 = [(0, 0), (0, 0), (0, 0)]"
proof -
  have "round_indices counter_randint 3 1 2 = [0, 0, 0]"
    by (simp only: round_indices_def draw_state_2 example_advance example_draws) simp
  then show ?thesis
    by (simp only: bootstrap_sample_def example_length) simp
qed

lemma example_degenerate_round:
  "degenerate (bootstrap_sample counter_randint 1 [(0, 0), (1, 2), (2, 1)] 2)"
  unfolding example_sample2
  by (simp add: degenerate_def zero_variance_def sq_dev_def np_mean_real_def)

lemma example_corr:
  "np_corrcoef01 rounding_one [(1, 2), (2, 1), (0, 0)] = Some (1 / 2)"
  "np_corrcoef01 rounding_one [(2, 1), (1, 2), (0, 0)] = Some (1 / 2)"
  "np_corrcoef01 rounding_one [(0, 0), (0, 0), (0, 0)] = None"
  by (simp_all add: np_corrcoef01_def np_cov_def np_mean_real_def clip_def zero_column_def)

lemma example_resample:
  "resample counter_randint 1 [(0, 0), (1, 2), (2, 1)] = Inr ([(1, 2), (2, 1), (0, 0)], 2)"
  "resample counter_randint 2 [(0, 0), (1, 2), (2, 1)] = Inr ([(2, 1), (1, 2), (0, 0)], 3)"
  "resample counter_randint 3 [(0, 0), (1, 2), (2, 1)] = Inr ([(0, 0), (0, 0), (0, 0)], 4)"
  by (simp_all only: resample_def example_length example_draws) (simp_all add: take_rows_def)

lemma boot_loop_step:
  "resample randint g data = Inr (s, g') \<Longrightarrow>
   boot_loop randint rounding data (Suc k) acc g = boot_loop randint rounding data k (acc @ [np_corrcoef01 rounding s]) g'"
  by simp

lemma example_run:
  "bootstrap_correlation counter_randint rounding_one 1 [(0, 0), (1, 2), (2, 1)] 3
     = Inr ([Some (1 / 2), Some (1 / 2), None], 4)"
proof -
  have n: "nat 3 = Suc (Suc (Suc 0))" by simp
  show ?thesis
    by (simp only: bootstrap_correlation_def n boot_loop_step [OF example_resample(1)]
          boot_loop_step [OF example_resample(2)] boot_loop_step [OF example_resample(3)]
          boot_loop.simps(1) example_corr append.simps)
qed

lemma those_None_iff: "those a = None \<longleftrightarrow> None \<in> set a"
  by (induction a) (auto split: option.splits)

lemma those_map_Some: "those (map Some xs) = Some xs"
  by (induction xs) simp_all

lemma nan_propagates:
  assumes "None \<in> set a"
  shows "np_mean a = None \<and> confidence_interval a = Inr [None, None]
         \<and> hist_data a = Inl ValueError \<and> summaries a = Inl ValueError"
proof -
  from assms have t: "those a = None" by (simp add: those_None_iff)
  from assms have "a \<noteq> []" by auto
  with t show ?thesis
    by (simp add: np_mean_def confidence_interval_def np_percentile_def hist_data_def
          np_histogram_def summaries_def)
qed

lemma example_samples01:
  "bootstrap_sample counter_randint 1 [(0, 0), (1, 2), (2, 1)] 0 = [(1, 2), (2, 1), (0, 0)]"
  "bootstrap_sample counter_randint 1 [(0, 0), (1, 2), (2, 1)] (Suc 0) = [(2, 1), (1, 2), (0, 0)]"
proof -
  have "round_indices counter_randint 3 1 0 = [1, 2, 0]"
    by (simp only: round_indices_def draw_state.simps example_draws) simp
  then show "bootstrap_sample counter_randint 1 [(0, 0), (1, 2), (2, 1)] 0
             = [(1, 2), (2, 1), (0, 0)]"
    by (simp only: bootstrap_sample_def example_length) simp
  have "round_indices counter_randint 3 1 (Suc 0) = [2, 1, 0]"
    by (simp only: round_indices_def draw_state.simps example_advance example_draws) simp
  then show "bootstrap_sample counter_randint 1 [(0, 0), (1, 2), (2, 1)] (Suc 0)
             = [(2, 1), (1, 2), (0, 0)]"
    by (simp only: bootstrap_sample_def example_length) simp
qed

lemma example_regular_rounds:
  "\<forall>i < nat 2. \<not> degenerate (bootstrap_sample counter_randint 1 [(0, 0), (1, 2), (2, 1)] i)"
proof (intro allI impI)
  fix i :: nat
  assume "i < nat 2"
  then have "i = 0 \<or> i = Suc 0" by auto
  moreover have "\<not> degenerate [(1, 2), (2, 1), (0, 0)]"
    and "\<not> degenerate [(2, 1), (1, 2), (0, 0)]"
    by (simp_all add: degenerate_def zero_variance_def sq_dev_def np_mean_real_def)
  ultimately show "\<not> degenerate (bootstrap_sample counter_randint 1 [(0, 0), (1, 2), (2, 1)] i)"
    by (auto simp only: example_samples01)
qed

subsection \<open>Percentiles\<close>

lemma interpolation_between:
  fixes s :: "real list"
  assumes "sorted s" and "lo < length s" and "0 \<le> t" and "t \<le> 1"
  defines "hi \<equiv> min (Suc lo) (length s - 1)"
  shows "s ! lo \<le> s ! lo + (s ! hi - s ! lo) * t"
    and "s ! lo + (s ! hi - s ! lo) * t \<le> s ! hi"
proof -
  have "lo \<le> hi" and "hi < length s" using assms(2) by (auto simp: hi_def)
  with assms(1) have le: "s ! lo \<le> s ! hi" by (simp add: sorted_nth_mono)
  then have d: "0 \<le> s ! hi - s ! lo" by simp
  with assms(3) have "0 \<le> (s ! hi - s ! lo) * t" by simp
  then show "s ! lo \<le> s ! lo + (s ! hi - s ! lo) * t" by simp
  from d assms(4) have "(s ! hi - s ! lo) * t \<le> (s ! hi - s ! lo) * 1"
    by (rule mult_left_mono[rotated])
  then show "s ! lo + (s ! hi - s ! lo) * t \<le> s ! hi" by simp
qed

lemma virtual_index_range:
  fixes q :: real
  assumes "a \<noteq> []" and "0 \<le> q" and "q \<le> 100"
  defines "v \<equiv> (real (length a) - 1) * (q / 100)"
  shows "0 \<le> v" and "nat \<lfloor>v\<rfloor> < length a" and "0 \<le> v - real (nat \<lfloor>v\<rfloor>)"
    and "v - real (nat \<lfloor>v\<rfloor>) \<le> 1"
proof -
  from assms(1) have n: "1 \<le> real (length a)" by (cases a) simp_all
  with assms(2) show v0: "0 \<le> v" by (simp add: v_def)
  from assms(2,3) have "q / 100 \<le> 1" by simp
  with n have "v \<le> (real (length a) - 1) * 1"
    unfolding v_def by (intro mult_left_mono) simp_all
  then have "v \<le> real (length a) - 1" by simp
  then have "\<lfloor>v\<rfloor> \<le> int (length a) - 1" by linarith
  moreover from v0 have "0 \<le> \<lfloor>v\<rfloor>" by simp
  ultimately show "nat \<lfloor>v\<rfloor> < length a" using assms(1) by (cases a) auto
  from v0 have r: "real (nat \<lfloor>v\<rfloor>) = of_int \<lfloor>v\<rfloor>" by simp
  show "0 \<le> v - real (nat \<lfloor>v\<rfloor>)" unfolding r by linarith
  show "v - real (nat \<lfloor>v\<rfloor>) \<le> 1" unfolding r by linarith
qed

lemma percentile_linear_mono:
  assumes "a \<noteq> []" and "0 \<le> q1" and "q1 \<le> q2" and "q2 \<le> 100"
  shows "percentile_linear a q1 \<le> percentile_linear a q2"
proof -
  let ?s = "sort a" and ?n = "length a"
  define v1 where "v1 = (real ?n - 1) * (q1 / 100)"
  define v2 where "v2 = (real ?n - 1) * (q2 / 100)"
  define lo1 where "lo1 = nat \<lfloor>v1\<rfloor>"
  define lo2 where "lo2 = nat \<lfloor>v2\<rfloor>"
  define hi1 where "hi1 = min (Suc lo1) (length ?s - 1)"
  define hi2 where "hi2 = min (Suc lo2) (length ?s - 1)"
  have srt: "sorted ?s" by simp
  have len: "length ?s = ?n" by simp
  from assms have q1: "q1 \<le> 100" and q2: "0 \<le> q2" by simp_all
  note r1 = virtual_index_range [OF assms(1,2) q1, folded v1_def, folded lo1_def]
  note r2 = virtual_index_range [OF assms(1) q2 assms(4), folded v2_def, folded lo2_def]
  from assms(1) have n: "0 \<le> real ?n - 1" by (cases a) simp_all
  from assms(3) have "q1 / 100 \<le> q2 / 100" by simp
  with n have v12: "v1 \<le> v2" unfolding v1_def v2_def by (rule mult_left_mono[rotated])
  then have lo12: "lo1 \<le> lo2" unfolding lo1_def lo2_def by (intro nat_mono floor_mono)
  have p1: "percentile_linear a q1 = ?s ! lo1 + (?s ! hi1 - ?s ! lo1) * (v1 - real lo1)"
    by (simp add: percentile_linear_def Let_def v1_def lo1_def hi1_def)
  have p2: "percentile_linear a q2 = ?s ! lo2 + (?s ! hi2 - ?s ! lo2) * (v2 - real lo2)"
    by (simp add: percentile_linear_def Let_def v2_def lo2_def hi2_def)
  from r1(2) have l1: "lo1 < length ?s" by simp
  from r2(2) have l2: "lo2 < length ?s" by simp
  note b1 = interpolation_between [OF srt l1 r1(3,4), folded hi1_def]
  note b2 = interpolation_between [OF srt l2 r2(3,4), folded hi2_def]
  show ?thesis
  proof (cases "lo1 = lo2")
    case True
    then have h: "hi1 = hi2" by (simp add: hi1_def hi2_def)
    have "lo2 \<le> hi2" and "hi2 < length ?s" using l2 by (auto simp: hi2_def)
    with srt have "0 \<le> ?s ! hi2 - ?s ! lo2" by (simp add: sorted_nth_mono)
    moreover from v12 True have "v1 - real lo1 \<le> v2 - real lo2" by simp
    ultimately have "(?s ! hi2 - ?s ! lo2) * (v1 - real lo1) \<le> (?s ! hi2 - ?s ! lo2) * (v2 - real lo2)"
      by (rule mult_left_mono[rotated])
    then show ?thesis unfolding p1 p2 h True by simp
  next
    case False
    with lo12 have "hi1 \<le> lo2" by (simp add: hi1_def)
    with srt l2 have "?s ! hi1 \<le> ?s ! lo2" by (simp add: sorted_nth_mono)
    with b1(2) b2(1) show ?thesis unfolding p1 p2 by linarith
  qed
qed

lemma example_interval:
  "confidence_interval [Some 3, Some 1, Some 2] = Inr [Some (105 / 100), Some (295 / 100)]"
  by (simp add: confidence_interval_def np_percentile_def percentile_linear_def)

subsection \<open>Histogram\<close>








lemma example_histogram:
  "np_histogram [Some 1, Some 3, Some 2] 2 = Inr ([Some (1 / 3), Some (2 / 3)], [1, 2, 3])"
  by (simp add: np_histogram_def np_histogram_density_def outer_edges_def bin_index_def upt_rec)

subsection \<open>Data generation\<close>

lemma affine_mvnormal_ok: "mvnormal_ok affine_mvnormal"
  by (simp add: mvnormal_ok_def affine_mvnormal_def)

lemma psd2_quadratic_form:
  assumes "psd2 c"
  shows "0 \<le> u * u * (c ! 0 ! 0) + 2 * u * v * (c ! 0 ! 1) + v * v * (c ! 1 ! 1)"
proof -
  let ?a = "c ! 0 ! 0" and ?b = "c ! 0 ! 1" and ?d = "c ! 1 ! 1"
  from assms have a: "0 \<le> ?a" and d: "0 \<le> ?d" and sym: "?b = c ! 1 ! 0"
    and det': "?b * (c ! 1 ! 0) \<le> ?a * ?d"
    unfolding psd2_def by blast+
  from det' have det: "?b * ?b \<le> ?a * ?d" by (simp only: sym [symmetric])
  show ?thesis
  proof (cases "?a = 0")
    case True
    with det have "?b * ?b \<le> 0" by simp
    then have "?b = 0" by (auto simp: mult_le_0_iff)
    with True d show ?thesis by simp
  next
    case False
    with a have pos: "0 < ?a" by simp
    have e: "?a * (u * u * ?a + 2 * u * v * ?b + v * v * ?d)
          = (?a * u + ?b * v) * (?a * u + ?b * v) + (?a * ?d - ?b * ?b) * (v * v)"
      by (simp add: algebra_simps)
    have s1: "0 \<le> (?a * u + ?b * v) * (?a * u + ?b * v)" by simp
    from det have "0 \<le> ?a * ?d - ?b * ?b" by simp
    moreover have "0 \<le> v * v" by simp
    ultimately have s2: "0 \<le> (?a * ?d - ?b * ?b) * (v * v)" by (rule mult_nonneg_nonneg)
    from s1 s2 have "0 \<le> ?a * (u * u * ?a + 2 * u * v * ?b + v * v * ?d)"
      unfolding e by (rule add_nonneg_nonneg)
    with pos show ?thesis by (simp add: zero_le_mult_iff)
  qed
qed

lemma unit_covariance_psd:
  assumes "- 1 \<le> correlation" and "correlation \<le> 1"
  shows "psd2 [[1, correlation], [correlation, 1]]"
proof -
  from assms have "\<bar>correlation\<bar> \<le> 1" by (simp add: abs_le_iff)
  then have "\<bar>correlation\<bar> * \<bar>correlation\<bar> \<le> 1 * 1"
    by (intro mult_mono) simp_all
  then have "correlation * correlation \<le> 1" by (simp add: abs_mult_self_eq)
  then show ?thesis by (simp add: psd2_def is_2x2_def)
qed

lemma example_generate:
  "generate_data affine_mvnormal 1 3 (1 / 2) = Inr ([(1, 1 / 2), (2, 1), (3, 3 / 2)], 4)"
  by (simp add: generate_data_def affine_mvnormal_def upt_rec numeral_3_eq_3)

subsection \<open>Resampling in the store\<close>

lemma resample_heap_value:
  "resample_heap randint g h data =
     (case resample randint g (cells h data) of
        Inl e \<Rightarrow> Inl e
      | Inr (rows, g') \<Rightarrow>
          Inr (next_free h, g',
               h\<lparr>cells := (cells h)(next_free h := rows), next_free := Suc (next_free h)\<rparr>))"
  by (simp add: resample_heap_def resample_def alloc_def split: sum.splits prod.splits)

lemma resample_rows_from_data:
  assumes "randint_ok randint" and "data \<noteq> []"
  shows "\<exists>rows g'. resample randint g data = Inr (rows, g')
           \<and> length rows = length data \<and> set rows \<subseteq> set data"
proof -
  from resample_returns [OF assms, of g] obtain idx g' where
    l: "length idx = length data" and b: "list_all (\<lambda>i. i < length data) idx"
    and r: "resample randint g data = Inr (map (\<lambda>i. data ! i) idx, g')"
    by blast
  from b have "set (map (\<lambda>i. data ! i) idx) \<subseteq> set data"
    by (auto simp: list_all_iff)
  with l r show ?thesis by simp
qed

lemma resample_heap_effect:
  assumes "randint_ok randint" and "cells h data \<noteq> []" and "data < next_free h"
  shows "\<exists>sample g' h'. resample_heap randint g h data = Inr (sample, g', h')
           \<and> resample randint g (cells h data) = Inr (cells h' sample, g')
           \<and> (\<forall>row \<in> set (cells h' sample). row \<in> set (cells h data))
           \<and> length (cells h' sample) = length (cells h data)
           \<and> sample \<noteq> data
           \<and> cells h' data = cells h data
           \<and> (\<forall>p < next_free h. cells h' p = cells h p)"
proof -
  from resample_rows_from_data [OF assms(1,2), of g] obtain rows g' where
    r: "resample randint g (cells h data) = Inr (rows, g')"
    and l: "length rows = length (cells h data)"
    and s: "set rows \<subseteq> set (cells h data)"
    by blast
  let ?h' = "h\<lparr>cells := (cells h)(next_free h := rows), next_free := Suc (next_free h)\<rparr>"
  from r have run: "resample_heap randint g h data = Inr (next_free h, g', ?h')"
    by (simp add: resample_heap_value)
  have c: "cells ?h' (next_free h) = rows" by simp
  from assms(3) have ne: "next_free h \<noteq> data" by simp
  from assms(3) have same: "cells ?h' data = cells h data" by simp
  have others: "\<forall>p < next_free h. cells ?h' p = cells h p" by simp
  from s have rows: "\<forall>row \<in> set (cells ?h' (next_free h)). row \<in> set (cells h data)"
    by (auto simp only: c)
  from run r l ne same others rows show ?thesis
    by (intro exI [of _ "next_free h"] exI [of _ g'] exI [of _ ?h']) (simp only: c, simp)
qed

lemma resample_heap_next_free:
  assumes "resample_heap randint g h data = Inr (sample, g', h')"
  shows "next_free h' = Suc (next_free h)"
proof (cases "resample randint g (cells h data)")
  case (Inl e)
  with assms show ?thesis by (simp add: resample_heap_value)
next
  case (Inr r)
  obtain rows g1 where "r = (rows, g1)" by (cases r)
  with Inr assms show ?thesis by (auto simp: resample_heap_value)
qed

lemma boot_loop_heap_refines:
  assumes "randint_ok randint" and "cells h data \<noteq> []" and "data < next_free h"
  shows "\<exists>out g' h'. boot_loop_heap randint rounding data k acc g h = Inr (out, g', h')
           \<and> boot_loop randint rounding (cells h data) k acc g = Inr (out, g')
           \<and> (\<forall>p < next_free h. cells h' p = cells h p)
           \<and> next_free h \<le> next_free h'"
  using assms(2,3)
proof (induction k arbitrary: acc g h)
  case 0
  show ?case by simp
next
  case (Suc k)
  from resample_heap_effect [OF assms(1) Suc.prems, of g] obtain sample g1 h1 where
    rh: "resample_heap randint g h data = Inr (sample, g1, h1)"
    and rv: "resample randint g (cells h data) = Inr (cells h1 sample, g1)"
    and same: "cells h1 data = cells h data"
    and others: "\<forall>p < next_free h. cells h1 p = cells h p"
    by blast
  from rh have nf: "next_free h1 = Suc (next_free h)" by (rule resample_heap_next_free)
  from Suc.prems same nf have p1: "cells h1 data \<noteq> []" and p2: "data < next_free h1" by simp_all
  from Suc.IH [OF p1 p2, of "acc @ [np_corrcoef01 rounding (cells h1 sample)]" g1]
  obtain out g' h' where
    lh: "boot_loop_heap randint rounding data k (acc @ [np_corrcoef01 rounding (cells h1 sample)]) g1 h1
         = Inr (out, g', h')"
    and lv: "boot_loop randint rounding (cells h1 data) k (acc @ [np_corrcoef01 rounding (cells h1 sample)]) g1
         = Inr (out, g')"
    and keep: "\<forall>p < next_free h1. cells h' p = cells h1 p"
    and grow: "next_free h1 \<le> next_free h'"
    by blast
  from rh lh have "boot_loop_heap randint rounding data (Suc k) acc g h = Inr (out, g', h')" by simp
  moreover from rv lv same have "boot_loop randint rounding (cells h data) (Suc k) acc g = Inr (out, g')"
    by simp
  moreover from keep others nf have "\<forall>p < next_free h. cells h' p = cells h p" by simp
  moreover from grow nf have "next_free h \<le> next_free h'" by simp
  ultimately show ?case by blast
qed

lemma bootstrap_correlation_heap_refines:
  assumes "randint_ok randint" and "cells h data \<noteq> []" and "data < next_free h"
  shows "\<exists>out g' h'. bootstrap_correlation_heap randint rounding g h data B = Inr (out, g', h')
           \<and> bootstrap_correlation randint rounding g (cells h data) B = Inr (out, g')
           \<and> cells h' data = cells h data"
  using boot_loop_heap_refines [OF assms, where k = "nat B" and acc = "[]" and g = g
      and rounding = rounding] assms(3)
  by (auto simp: bootstrap_correlation_heap_def bootstrap_correlation_def)

lemma example_heap_facts:
  "cells example_heap 0 \<noteq> []" "0 < next_free example_heap"
  by (simp_all add: example_heap_def)

subsection \<open>The random source\<close>

lemma bootstrap_correlation_depends_on_draws:
  assumes "randint_ok randint1" and "randint_ok randint2" and "data \<noteq> []"
    and "\<forall>i < nat B. round_indices randint1 (length data) g1 i
                     = round_indices randint2 (length data) g2 i"
  shows "map_sum id fst (bootstrap_correlation randint1 rounding g1 data B)
         = map_sum id fst (bootstrap_correlation randint2 rounding g2 data B)"
proof -
  have "map (\<lambda>i. np_corrcoef01 rounding (bootstrap_sample randint1 g1 data i)) [0..<nat B]
        = map (\<lambda>i. np_corrcoef01 rounding (bootstrap_sample randint2 g2 data i)) [0..<nat B]"
    using assms(4) by (simp add: bootstrap_sample_def)
  then show ?thesis
    by (simp add: bootstrap_correlation_rounds_eq [OF assms(1,3)]
          bootstrap_correlation_rounds_eq [OF assms(2,3)])
qed

lemma example_pipeline_resample:
  "resample counter_randint 4 [(1, 1 / 2), (2, 1), (3, 3 / 2)]
     = Inr ([(2, 1), (3, 3 / 2), (1, 1 / 2)], 5)"
  "resample counter_randint 5 [(1, 1 / 2), (2, 1), (3, 3 / 2)]
     = Inr ([(3, 3 / 2), (2, 1), (1, 1 / 2)], 6)"
  by (simp_all add: resample_def counter_randint_def take_rows_def upt_rec)

lemma example_pipeline:
  "run_pipeline affine_mvnormal counter_randint rounding_one 1 3 (1 / 2) 2
     = Inr ([(1, 1 / 2), (2, 1), (3, 3 / 2)], [Some 1, Some 1], 6)"
proof -
  have n: "nat 2 = Suc (Suc 0)" by simp
  have c: "np_corrcoef01 rounding_one [(2, 1), (3, 3 / 2), (1, 1 / 2)] = Some 1"
    "np_corrcoef01 rounding_one [(3, 3 / 2), (2, 1), (1, 1 / 2)] = Some 1"
    by (simp_all add: np_corrcoef01_def np_cov_def np_mean_real_def clip_def real_sqrt_divide)
  have "bootstrap_correlation counter_randint rounding_one 4 [(1, 1 / 2), (2, 1), (3, 3 / 2)] 2
        = Inr ([Some 1, Some 1], 6)"
    by (simp only: bootstrap_correlation_def n boot_loop_step [OF example_pipeline_resample(1)]
          boot_loop_step [OF example_pipeline_resample(2)] boot_loop.simps(1) c append.simps)
  then show ?thesis unfolding run_pipeline_def example_generate by simp
qed

subsection \<open>Degenerate resamples\<close>

lemma those_length: "those a = Some xs \<Longrightarrow> length xs = length a"
  by (induction a arbitrary: xs) (auto split: option.splits)

lemma aggregates_over_all:
  assumes "those a = Some xs" and "a \<noteq> []"
  shows "length xs = length a"
    and "np_mean a = Some (sum_list xs / real (length a))"
    and "confidence_interval a
         = Inr [Some (percentile_linear xs (25 / 10)), Some (percentile_linear xs (975 / 10))]"
proof -
  from assms(1) show l: "length xs = length a" by (rule those_length)
  with assms(2) have "xs \<noteq> []" by auto
  with assms(1) l show "np_mean a = Some (sum_list xs / real (length a))"
    by (simp add: np_mean_def np_mean_real_def)
  from assms show "confidence_interval a
         = Inr [Some (percentile_linear xs (25 / 10)), Some (percentile_linear xs (975 / 10))]"
    by (simp add: confidence_interval_def np_percentile_def)
qed

lemma example_constant_rows:
  "resample counter_randint 1 [(1 / 10, 1 / 5), (1 / 10, 1 / 5), (1 / 10, 1 / 5)]
     = Inr ([(1 / 10, 1 / 5), (1 / 10, 1 / 5), (1 / 10, 1 / 5)], 2)"
  "bootstrap_sample counter_randint 1 [(1 / 10, 1 / 5), (1 / 10, 1 / 5), (1 / 10, 1 / 5)] 0
     = [(1 / 10, 1 / 5), (1 / 10, 1 / 5), (1 / 10, 1 / 5)]"
  "degenerate [(1 / 10, 1 / 5), (1 / 10, 1 / 5), (1 / 10, 1 / 5)]"
  "np_corrcoef01 rounding_one [(1 / 10, 1 / 5), (1 / 10, 1 / 5), (1 / 10, 1 / 5)] = Some 1"
proof -
  have len: "length [(1 / 10, 1 / 5), (1 / 10, 1 / 5), (1 / 10, 1 / 5) :: real \<times> real] = 3"
    by simp
  show "resample counter_randint 1 [(1 / 10, 1 / 5), (1 / 10, 1 / 5), (1 / 10, 1 / 5)]
     = Inr ([(1 / 10, 1 / 5), (1 / 10, 1 / 5), (1 / 10, 1 / 5)], 2)"
    by (simp only: resample_def len example_draws) (simp add: take_rows_def)
  have "round_indices counter_randint 3 1 0 = [1, 2, 0]"
    by (simp only: round_indices_def draw_state.simps example_draws) simp
  then show "bootstrap_sample counter_randint 1
               [(1 / 10, 1 / 5), (1 / 10, 1 / 5), (1 / 10, 1 / 5)] 0
             = [(1 / 10, 1 / 5), (1 / 10, 1 / 5), (1 / 10, 1 / 5)]"
    by (simp only: bootstrap_sample_def len) simp
  show "degenerate [(1 / 10, 1 / 5), (1 / 10, 1 / 5), (1 / 10, 1 / 5)]"
    by (simp add: degenerate_def zero_variance_def sq_dev_def np_mean_real_def)
  show "np_corrcoef01 rounding_one [(1 / 10, 1 / 5), (1 / 10, 1 / 5), (1 / 10, 1 / 5)] = Some 1"
    by (simp add: np_corrcoef01_def np_cov_def np_mean_real_def clip_def zero_column_def
          rounding_one_def)
qed

lemma example_spurious_run:
  "bootstrap_correlation counter_randint rounding_one 1
     [(1 / 10, 1 / 5), (1 / 10, 1 / 5), (1 / 10, 1 / 5)] 1 = Inr ([Some 1], 2)"
  "np_mean [Some 1] = Some 1"
  "confidence_interval [Some 1] = Inr [Some 1, Some 1]"
proof -
  have n: "nat 1 = Suc 0" by simp
  show "bootstrap_correlation counter_randint rounding_one 1
     [(1 / 10, 1 / 5), (1 / 10, 1 / 5), (1 / 10, 1 / 5)] 1 = Inr ([Some 1], 2)"
    by (simp only: bootstrap_correlation_def n boot_loop_step [OF example_constant_rows(1)]
          boot_loop.simps(1) example_constant_rows(4) append.simps)
  show "np_mean [Some 1] = Some 1" by (simp add: np_mean_def np_mean_real_def)
  show "confidence_interval [Some 1] = Inr [Some 1, Some 1]"
    by (simp add: confidence_interval_def np_percentile_def percentile_linear_def)
qed

subsection \<open>Seeded and unseeded sources\<close>

lemma seeded_of_randint: "seeded_draws (of_randint randint)"
  by (simp add: seeded_draws_def of_randint_def)

lemma seeded_of_mvnormal: "seeded_samples (of_mvnormal multivariate_normal)"
  by (simp add: seeded_samples_def of_mvnormal_def)

lemma generate_data_rel_of_mvnormal:
  "generate_data_rel (of_mvnormal multivariate_normal) g n correlation r
   \<longleftrightarrow> generate_data multivariate_normal g n correlation = r"
  by (simp add: generate_data_rel_def generate_data_def of_mvnormal_def)

lemma resample_rel_of_randint:
  "resample_rel (of_randint randint) g data r \<longleftrightarrow> resample randint g data = r"
proof
  assume "resample_rel (of_randint randint) g data r"
  then show "resample randint g data = r"
    by cases (simp_all add: of_randint_def resample_def)
next
  assume r: "resample randint g data = r"
  show "resample_rel (of_randint randint) g data r"
  proof (cases "randint g (length data) (length data)")
    case (Inl e)
    then have "of_randint randint g (length data) (length data) (Inl e)"
      by (simp add: of_randint_def)
    then have "resample_rel (of_randint randint) g data (Inl e)" by (rule draw_raises)
    with Inl r show ?thesis by (simp add: resample_def)
  next
    case (Inr p)
    obtain idx g' where p: "p = (idx, g')" by (cases p)
    with Inr have d: "of_randint randint g (length data) (length data) (Inr (idx, g'))"
      by (simp add: of_randint_def)
    show ?thesis
    proof (cases "take_rows data idx")
      case (Inl e)
      from d Inl have "resample_rel (of_randint randint) g data (Inl e)" by (rule index_raises)
      with Inr p Inl r show ?thesis by (simp add: resample_def)
    next
      case (Inr sample)
      from d Inr have "resample_rel (of_randint randint) g data (Inr (sample, g'))"
        by (rule rows_taken)
      with \<open>randint g (length data) (length data) = Inr p\<close> p Inr r show ?thesis
        by (simp add: resample_def)
    qed
  qed
qed

lemma boot_rel_of_randint:
  "boot_rel (of_randint randint) rounding data k acc g r
   \<longleftrightarrow> boot_loop randint rounding data k acc g = r"
proof
  assume "boot_rel (of_randint randint) rounding data k acc g r"
  then show "boot_loop randint rounding data k acc g = r"
    by induction (simp_all add: resample_rel_of_randint)
next
  assume "boot_loop randint rounding data k acc g = r"
  then show "boot_rel (of_randint randint) rounding data k acc g r"
  proof (induction k arbitrary: acc g r)
    case 0
    then show ?case by (auto intro: loop_done)
  next
    case (Suc k)
    show ?case
    proof (cases "resample randint g data")
      case (Inl e)
      then have "resample_rel (of_randint randint) g data (Inl e)"
        by (simp add: resample_rel_of_randint)
      then have "boot_rel (of_randint randint) rounding data (Suc k) acc g (Inl e)"
        by (rule round_raises)
      with Inl Suc.prems show ?thesis by simp
    next
      case (Inr p)
      obtain sample g' where p: "p = (sample, g')" by (cases p)
      with Inr have s: "resample_rel (of_randint randint) g data (Inr (sample, g'))"
        by (simp add: resample_rel_of_randint)
      from Inr p Suc.prems
      have "boot_loop randint rounding data k (acc @ [np_corrcoef01 rounding sample]) g' = r"
        by simp
      then have "boot_rel (of_randint randint) rounding data k
                   (acc @ [np_corrcoef01 rounding sample]) g' r"
        by (rule Suc.IH)
      with s show ?thesis by (rule round_appends)
    qed
  qed
qed

lemma bootstrap_correlation_rel_of_randint:
  "bootstrap_correlation_rel (of_randint randint) rounding g data B r
   \<longleftrightarrow> bootstrap_correlation randint rounding g data B = r"
  by (simp add: bootstrap_correlation_rel_def bootstrap_correlation_def boot_rel_of_randint)

lemma run_pipeline_rel_of_functions:
  "run_pipeline_rel (of_mvnormal multivariate_normal) (of_randint randint) rounding
     g n correlation B r
   \<longleftrightarrow> run_pipeline multivariate_normal randint rounding g n correlation B = r"
proof
  assume "run_pipeline_rel (of_mvnormal multivariate_normal) (of_randint randint) rounding
            g n correlation B r"
  then show "run_pipeline multivariate_normal randint rounding g n correlation B = r"
    by cases
       (simp_all add: run_pipeline_def generate_data_rel_of_mvnormal
          bootstrap_correlation_rel_of_randint)
next
  assume r: "run_pipeline multivariate_normal randint rounding g n correlation B = r"
  show "run_pipeline_rel (of_mvnormal multivariate_normal) (of_randint randint) rounding
            g n correlation B r"
  proof (cases "generate_data multivariate_normal g n correlation")
    case (Inl e)
    then have "generate_data_rel (of_mvnormal multivariate_normal) g n correlation (Inl e)"
      by (simp add: generate_data_rel_of_mvnormal)
    then have "run_pipeline_rel (of_mvnormal multivariate_normal) (of_randint randint) rounding
                 g n correlation B (Inl e)"
      by (rule generation_raises)
    with Inl r show ?thesis by (simp add: run_pipeline_def)
  next
    case (Inr p)
    obtain data g1 where p: "p = (data, g1)" by (cases p)
    with Inr have gen: "generate_data_rel (of_mvnormal multivariate_normal) g n correlation
                          (Inr (data, g1))"
      by (simp add: generate_data_rel_of_mvnormal)
    show ?thesis
    proof (cases "bootstrap_correlation randint rounding g1 data B")
      case (Inl e)
      then have "bootstrap_correlation_rel (of_randint randint) rounding g1 data B (Inl e)"
        by (simp add: bootstrap_correlation_rel_of_randint)
      with gen have "run_pipeline_rel (of_mvnormal multivariate_normal) (of_randint randint)
                       rounding g n correlation B (Inl e)"
        by (rule bootstrap_raises)
      with \<open>generate_data multivariate_normal g n correlation = Inr p\<close> p Inl r
      show ?thesis by (simp add: run_pipeline_def)
    next
      case (Inr q)
      obtain out g2 where q: "q = (out, g2)" by (cases q)
      with Inr have "bootstrap_correlation_rel (of_randint randint) rounding g1 data B
                       (Inr (out, g2))"
        by (simp add: bootstrap_correlation_rel_of_randint)
      with gen have "run_pipeline_rel (of_mvnormal multivariate_normal) (of_randint randint)
                       rounding g n correlation B (Inr (data, out, g2))"
        by (rule pipeline_returns)
      with \<open>generate_data multivariate_normal g n correlation = Inr p\<close> p Inr q r
      show ?thesis by (simp add: run_pipeline_def)
    qed
  qed
qed

lemma resample_rel_outcome:
  assumes "resample_rel draws g data r"
  shows "\<exists>d. draws g (length data) (length data) d
          \<and> r = (case d of
                    Inl e \<Rightarrow> Inl e
                  | Inr (idx, g') \<Rightarrow>
                      (case take_rows data idx of
                         Inl e \<Rightarrow> Inl e
                       | Inr sample \<Rightarrow> Inr (sample, g')))"
  using assms by cases force+

lemma resample_rel_single_valued:
  assumes "seeded_draws draws"
    and "resample_rel draws g data r1" and "resample_rel draws g data r2"
  shows "r1 = r2"
proof -
  from assms(2) obtain d1 where d1: "draws g (length data) (length data) d1"
    and r1: "r1 = (case d1 of
                    Inl e \<Rightarrow> Inl e
                  | Inr (idx, g') \<Rightarrow>
                      (case take_rows data idx of
                         Inl e \<Rightarrow> Inl e
                       | Inr sample \<Rightarrow> Inr (sample, g')))"
    by (blast dest: resample_rel_outcome)
  from assms(3) obtain d2 where d2: "draws g (length data) (length data) d2"
    and r2: "r2 = (case d2 of
                    Inl e \<Rightarrow> Inl e
                  | Inr (idx, g') \<Rightarrow>
                      (case take_rows data idx of
                         Inl e \<Rightarrow> Inl e
                       | Inr sample \<Rightarrow> Inr (sample, g')))"
    by (blast dest: resample_rel_outcome)
  from assms(1) d1 d2 have "d1 = d2" unfolding seeded_draws_def by blast
  with r1 r2 show ?thesis by simp
qed

lemma boot_rel_single_valued:
  assumes "seeded_draws draws"
  shows "boot_rel draws rounding data k acc g r1 \<Longrightarrow> boot_rel draws rounding data k acc g r2
         \<Longrightarrow> r1 = r2"
proof (induction arbitrary: r2 rule: boot_rel.induct)
  case (loop_done correlations g)
  from loop_done show ?case by cases simp
next
  case (round_raises g e k correlations)
  from round_raises.prems show ?case
  proof cases
    case (round_raises e')
    with resample_rel_single_valued [OF assms round_raises.hyps] show ?thesis by blast
  next
    case (round_appends sample g')
    with resample_rel_single_valued [OF assms round_raises.hyps] show ?thesis by blast
  qed
next
  case (round_appends g sample g' k correlations r)
  from round_appends.prems show ?case
  proof cases
    case (round_raises e')
    with resample_rel_single_valued [OF assms round_appends.hyps(1)] show ?thesis by blast
  next
    case (round_appends sample' g'')
    from resample_rel_single_valued [OF assms round_appends.hyps(1) round_appends(1)]
    have "sample' = sample" and "g'' = g'" by simp_all
    with round_appends(2) round_appends.IH show ?thesis by simp
  qed
qed

lemma generate_data_rel_single_valued:
  assumes "seeded_samples samples"
    and "generate_data_rel samples g n correlation r1"
    and "generate_data_rel samples g n correlation r2"
  shows "r1 = r2"
  using assms unfolding seeded_samples_def generate_data_rel_def Let_def by blast

lemma bootstrap_correlation_rel_single_valued:
  assumes "seeded_draws draws"
    and "bootstrap_correlation_rel draws rounding g data B r1"
    and "bootstrap_correlation_rel draws rounding g data B r2"
  shows "r1 = r2"
  using assms(2,3) unfolding bootstrap_correlation_rel_def
  by (rule boot_rel_single_valued [OF assms(1)])

lemma run_pipeline_rel_single_valued:
  assumes "seeded_samples samples" and "seeded_draws draws"
    and "run_pipeline_rel samples draws rounding g n correlation B r1"
    and "run_pipeline_rel samples draws rounding g n correlation B r2"
  shows "r1 = r2"
  using assms(3)
proof cases
  case (generation_raises e)
  note first = this
  from assms(4) show ?thesis
  proof cases
    case (generation_raises e')
    with first generate_data_rel_single_valued [OF assms(1)] show ?thesis by blast
  next
    case (bootstrap_raises data g1 e')
    with first generate_data_rel_single_valued [OF assms(1)] show ?thesis by blast
  next
    case (pipeline_returns data g1 out g2)
    with first generate_data_rel_single_valued [OF assms(1)] show ?thesis by blast
  qed
next
  case (bootstrap_raises data g1 e)
  note first = this
  from assms(4) show ?thesis
  proof cases
    case (generation_raises e')
    with first generate_data_rel_single_valued [OF assms(1)] show ?thesis by blast
  next
    case (bootstrap_raises data' g1' e')
    from generate_data_rel_single_valued [OF assms(1) first(2) bootstrap_raises(2)]
    have "data' = data" and "g1' = g1" by simp_all
    with bootstrap_correlation_rel_single_valued [OF assms(2) first(3)] bootstrap_raises(3)
    have "Inl e = (Inl e' :: error + real option list \<times> 'a)" by simp
    with first(1) bootstrap_raises(1) show ?thesis by simp
  next
    case (pipeline_returns data' g1' out g2)
    from generate_data_rel_single_valued [OF assms(1) first(2) pipeline_returns(2)]
    have "data' = data" and "g1' = g1" by simp_all
    with bootstrap_correlation_rel_single_valued [OF assms(2) first(3)] pipeline_returns(3)
    have "Inl e = (Inr (out, g2) :: error + real option list \<times> 'a)" by simp
    then show ?thesis by simp
  qed
next
  case (pipeline_returns data g1 out g2)
  note first = this
  from assms(4) show ?thesis
  proof cases
    case (generation_raises e')
    with first generate_data_rel_single_valued [OF assms(1)] show ?thesis by blast
  next
    case (bootstrap_raises data' g1' e')
    from generate_data_rel_single_valued [OF assms(1) first(2) bootstrap_raises(2)]
    have "data' = data" and "g1' = g1" by simp_all
    with bootstrap_correlation_rel_single_valued [OF assms(2) first(3)] bootstrap_raises(3)
    have "Inr (out, g2) = (Inl e' :: error + real option list \<times> 'a)" by simp
    then show ?thesis by simp
  next
    case (pipeline_returns data' g1' out' g2')
    from generate_data_rel_single_valued [OF assms(1) first(2) pipeline_returns(2)]
    have d: "data' = data" and "g1' = g1" by simp_all
    with bootstrap_correlation_rel_single_valued [OF assms(2) first(3)] pipeline_returns(3)
    have "Inr (out, g2) = (Inr (out', g2') :: error + real option list \<times> 'a)" by simp
    with first(1) pipeline_returns(1) d show ?thesis by simp
  qed
qed

lemma unseeded_runs_differ:
  "bootstrap_correlation_rel any_draws rounding () [(0, 0), (1, 2), (2, 1)] 1
     (Inr ([Some (1 / 2)], ()))"
  "bootstrap_correlation_rel any_draws rounding () [(0, 0), (1, 2), (2, 1)] 1
     (Inr ([None], ()))"
  "\<not> seeded_draws any_draws"
proof -
  let ?D = "[(0, 0), (1, 2), (2, 1)] :: dataset"
  have n: "nat 1 = Suc 0" by simp
  have d1: "any_draws () (length ?D) (length ?D) (Inr ([1, 2, 0], ()))"
    and d2: "any_draws () (length ?D) (length ?D) (Inr ([0, 0, 0], ()))"
    by (simp_all add: any_draws_def)
  have t1: "take_rows ?D [1, 2, 0] = Inr [(1, 2), (2, 1), (0, 0)]"
    and t2: "take_rows ?D [0, 0, 0] = Inr [(0, 0), (0, 0), (0, 0)]"
    by (simp_all add: take_rows_def)
  have c1: "np_corrcoef01 rounding [(1, 2), (2, 1), (0, 0)] = Some (1 / 2)"
    and c2: "np_corrcoef01 rounding [(0, 0), (0, 0), (0, 0)] = None"
    by (simp_all add: np_corrcoef01_def np_cov_def np_mean_real_def clip_def zero_column_def)
  have "boot_rel any_draws rounding ?D 0 ([] @ [np_corrcoef01 rounding [(1, 2), (2, 1), (0, 0)]]) ()
          (Inr ([] @ [np_corrcoef01 rounding [(1, 2), (2, 1), (0, 0)]], ()))"
    by (rule loop_done)
  with rows_taken [of any_draws, OF d1 t1]
  have "boot_rel any_draws rounding ?D (Suc 0) [] ()
          (Inr ([] @ [np_corrcoef01 rounding [(1, 2), (2, 1), (0, 0)]], ()))"
    by (rule round_appends)
  then show "bootstrap_correlation_rel any_draws rounding () ?D 1 (Inr ([Some (1 / 2)], ()))"
    by (simp only: bootstrap_correlation_rel_def n c1 append.simps)
  have "boot_rel any_draws rounding ?D 0 ([] @ [np_corrcoef01 rounding [(0, 0), (0, 0), (0, 0)]]) ()
          (Inr ([] @ [np_corrcoef01 rounding [(0, 0), (0, 0), (0, 0)]], ()))"
    by (rule loop_done)
  with rows_taken [of any_draws, OF d2 t2]
  have "boot_rel any_draws rounding ?D (Suc 0) [] ()
          (Inr ([] @ [np_corrcoef01 rounding [(0, 0), (0, 0), (0, 0)]], ()))"
    by (rule round_appends)
  then show "bootstrap_correlation_rel any_draws rounding () ?D 1 (Inr ([None], ()))"
    by (simp only: bootstrap_correlation_rel_def n c2 append.simps)
  from d1 d2 show "\<not> seeded_draws any_draws"
    unfolding seeded_draws_def by fastforce
qed

lemma example_run2:
  "bootstrap_correlation counter_randint rounding_one 1 [(0, 0), (1, 2), (2, 1)] 2
     = Inr ([Some (1 / 2), Some (1 / 2)], 3)"
proof -
  have n: "nat 2 = Suc (Suc 0)" by simp
  show ?thesis
    by (simp only: bootstrap_correlation_def n boot_loop_step [OF example_resample(1)]
          boot_loop_step [OF example_resample(2)] boot_loop.simps(1) example_corr append.simps)
qed

section \<open>The claims\<close>

text \<open>
  Claim C1. For a dataset with at least two rows and a positive iteration count \<open>B\<close>,
  \<^verbatim>\<open>bootstrap_correlation\<close> returns after exactly \<open>B\<close> rounds. Round \<open>i\<close> asks the
  random source, in the state the previous rounds left, for \<open>|data|\<close> indices below
  \<open>|data|\<close> (repetitions allowed), takes the rows of the dataset at these indices as the
  bootstrap sample, and element \<open>i\<close> of the output is what \<^verbatim>\<open>np.corrcoef\<close> returns for
  that sample: the Pearson coefficient whenever the sample is not degenerate. That the
  indices are uniformly distributed is the documented behaviour of
  \<^verbatim>\<open>np.random.randint\<close>, which the model takes as given.
\<close>

theorem bootstrap_correlation_rounds:
  assumes "randint_ok randint" and "2 \<le> length data" and "0 < B"
  shows "\<exists>out g'. bootstrap_correlation randint rounding g data B = Inr (out, g')
           \<and> int (length out) = B
           \<and> g' = draw_state randint (length data) g (nat B)
           \<and> (\<forall>i < nat B.
                  randint (draw_state randint (length data) g i) (length data) (length data)
                    = Inr (round_indices randint (length data) g i,
                           draw_state randint (length data) g (Suc i))
                \<and> length (round_indices randint (length data) g i) = length data
                \<and> list_all (\<lambda>j. j < length data) (round_indices randint (length data) g i)
                \<and> bootstrap_sample randint g data i
                    = map (\<lambda>j. data ! j) (round_indices randint (length data) g i)
                \<and> out ! i = np_corrcoef01 rounding (bootstrap_sample randint g data i)
                \<and> (\<not> degenerate (bootstrap_sample randint g data i)
                     \<longrightarrow> out ! i = Some (pearson_r (bootstrap_sample randint g data i))))"
proof -
  from assms(2) have ne: "data \<noteq> []" and pos: "0 < length data" by auto
  let ?out = "map (\<lambda>i. np_corrcoef01 rounding (bootstrap_sample randint g data i)) [0..<nat B]"
  have run: "bootstrap_correlation randint rounding g data B
             = Inr (?out, draw_state randint (length data) g (nat B))"
    by (rule bootstrap_correlation_rounds_eq [OF assms(1) ne])
  have len: "int (length ?out) = B" using assms(3) by simp
  have rounds: "\<forall>i < nat B.
                  randint (draw_state randint (length data) g i) (length data) (length data)
                    = Inr (round_indices randint (length data) g i,
                           draw_state randint (length data) g (Suc i))
                \<and> length (round_indices randint (length data) g i) = length data
                \<and> list_all (\<lambda>j. j < length data) (round_indices randint (length data) g i)
                \<and> bootstrap_sample randint g data i
                    = map (\<lambda>j. data ! j) (round_indices randint (length data) g i)
                \<and> ?out ! i = np_corrcoef01 rounding (bootstrap_sample randint g data i)
                \<and> (\<not> degenerate (bootstrap_sample randint g data i)
                     \<longrightarrow> ?out ! i = Some (pearson_r (bootstrap_sample randint g data i)))"
  proof (intro allI impI)
    fix i assume i: "i < nat B"
    have at: "?out ! i = np_corrcoef01 rounding (bootstrap_sample randint g data i)"
      using i by simp
    have p: "\<not> degenerate (bootstrap_sample randint g data i)
             \<longrightarrow> ?out ! i = Some (pearson_r (bootstrap_sample randint g data i))"
      by (simp only: at) (simp add: np_corrcoef01_pearson)
    have s: "bootstrap_sample randint g data i
             = map (\<lambda>j. data ! j) (round_indices randint (length data) g i)"
      by (simp add: bootstrap_sample_def)
    from round_indices_drawn [OF assms(1) pos, of g i] s at p
    show "randint (draw_state randint (length data) g i) (length data) (length data)
                    = Inr (round_indices randint (length data) g i,
                           draw_state randint (length data) g (Suc i))
                \<and> length (round_indices randint (length data) g i) = length data
                \<and> list_all (\<lambda>j. j < length data) (round_indices randint (length data) g i)
                \<and> bootstrap_sample randint g data i
                    = map (\<lambda>j. data ! j) (round_indices randint (length data) g i)
                \<and> ?out ! i = np_corrcoef01 rounding (bootstrap_sample randint g data i)
                \<and> (\<not> degenerate (bootstrap_sample randint g data i)
                     \<longrightarrow> ?out ! i = Some (pearson_r (bootstrap_sample randint g data i)))"
      by blast
  qed
  from run len rounds show ?thesis by blast
qed

theorem bootstrap_correlation_rounds_witness:
  "randint_ok counter_randint \<and> 2 \<le> length [(0, 0), (1, 2), (2, 1) :: real \<times> real] \<and> (0::int) < 3
   \<and> (\<exists>out g'. bootstrap_correlation counter_randint rounding_one 1 [(0, 0), (1, 2), (2, 1)] 3
                   = Inr (out, g')
           \<and> int (length out) = 3
           \<and> g' = draw_state counter_randint (length [(0, 0), (1, 2), (2, 1) :: real \<times> real]) 1 (nat 3)
           \<and> (\<forall>i < nat 3.
                  counter_randint
                      (draw_state counter_randint (length [(0, 0), (1, 2), (2, 1) :: real \<times> real]) 1 i)
                      (length [(0, 0), (1, 2), (2, 1) :: real \<times> real])
                      (length [(0, 0), (1, 2), (2, 1) :: real \<times> real])
                    = Inr (round_indices counter_randint
                             (length [(0, 0), (1, 2), (2, 1) :: real \<times> real]) 1 i,
                           draw_state counter_randint
                             (length [(0, 0), (1, 2), (2, 1) :: real \<times> real]) 1 (Suc i))
                \<and> length (round_indices counter_randint
                             (length [(0, 0), (1, 2), (2, 1) :: real \<times> real]) 1 i)
                    = length [(0, 0), (1, 2), (2, 1) :: real \<times> real]
                \<and> list_all (\<lambda>j. j < length [(0, 0), (1, 2), (2, 1) :: real \<times> real])
                     (round_indices counter_randint
                        (length [(0, 0), (1, 2), (2, 1) :: real \<times> real]) 1 i)
                \<and> bootstrap_sample counter_randint 1 [(0, 0), (1, 2), (2, 1)] i
                    = map (\<lambda>j. [(0, 0), (1, 2), (2, 1)] ! j)
                        (round_indices counter_randint
                           (length [(0, 0), (1, 2), (2, 1) :: real \<times> real]) 1 i)
                \<and> out ! i
                    = np_corrcoef01 rounding_one
                        (bootstrap_sample counter_randint 1 [(0, 0), (1, 2), (2, 1)] i)
                \<and> (\<not> degenerate (bootstrap_sample counter_randint 1 [(0, 0), (1, 2), (2, 1)] i)
                     \<longrightarrow> out ! i
                          = Some (pearson_r
                                    (bootstrap_sample counter_randint 1 [(0, 0), (1, 2), (2, 1)] i)))))"
proof -
  have d: "2 \<le> length [(0, 0), (1, 2), (2, 1) :: real \<times> real]" by simp
  have b: "(0::int) < 3" by simp
  show ?thesis
    by (rule conjI [OF counter_randint_ok
          conjI [OF d conjI [OF b
            bootstrap_correlation_rounds [OF counter_randint_ok d b,
              where g = 1 and rounding = rounding_one]]]])
qed

text \<open>
  Claim C2. For a dataset with at least one row and an iteration count \<open>B \<ge> 0\<close> (so for
  every positive \<open>B\<close>), \<^verbatim>\<open>bootstrap_correlation\<close> returns, and the list it returns
  has exactly \<open>B\<close> elements.
\<close>

theorem bootstrap_correlation_length:
  assumes "randint_ok randint" and "data \<noteq> []" and "0 \<le> B"
  shows "\<exists>out g'. bootstrap_correlation randint rounding g data B = Inr (out, g')
           \<and> int (length out) = B"
proof -
  from boot_loop_length [OF assms(1,2), where k = "nat B" and acc = "[]" and g = g
      and rounding = rounding] obtain out g' where
    "boot_loop randint rounding data (nat B) [] g = Inr (out, g')" and "length out = nat B"
    by auto
  with assms(3) show ?thesis by (auto simp: bootstrap_correlation_def)
qed

theorem bootstrap_correlation_length_witness:
  "randint_ok counter_randint \<and> [(0, 0), (1, 2), (2, 1)] \<noteq> ([] :: dataset) \<and> (0::int) \<le> 3
   \<and> (\<exists>out g'. bootstrap_correlation counter_randint rounding_one 1 [(0, 0), (1, 2), (2, 1)] 3 = Inr (out, g')
         \<and> int (length out) = 3)"
  using bootstrap_correlation_length [OF counter_randint_ok, where data = "[(0, 0), (1, 2), (2, 1)]"
      and B = 3 and g = 1 and rounding = rounding_one]
    counter_randint_ok
  by simp

text \<open>
  Claim C3. For a positive \<open>n\<close> and a correlation in \<open>[-1, 1]\<close>,
  \<^verbatim>\<open>generate_data\<close> builds a matrix of two rows and two columns with 1 on the
  diagonal and the correlation off the diagonal, which is a covariance matrix
  (symmetric, positive semi-definite), and its result is the sampler's draw of \<open>n\<close>
  observations for the mean \<open>(0, 0)\<close> and that matrix. That the draws are independent and
  normally distributed is the documented behaviour of
  \<^verbatim>\<open>np.random.multivariate_normal\<close>, which the model takes as given.
\<close>

theorem generate_data_covariance:
  assumes "mvnormal_ok multivariate_normal" and "0 < n"
    and "- 1 \<le> correlation" and "correlation \<le> 1"
  shows "\<exists>cov d g'. generate_data multivariate_normal g n correlation
                      = multivariate_normal g [0, 0] cov n
           \<and> is_2x2 cov
           \<and> cov ! 0 ! 0 = 1 \<and> cov ! 1 ! 1 = 1
           \<and> cov ! 0 ! 1 = correlation \<and> cov ! 1 ! 0 = correlation
           \<and> psd2 cov
           \<and> multivariate_normal g [0, 0] cov n = Inr (d, g') \<and> int (length d) = n"
proof -
  let ?cov = "[[1, correlation], [correlation, 1]]"
  have call: "generate_data multivariate_normal g n correlation
              = multivariate_normal g [0, 0] ?cov n"
    by (simp add: generate_data_def)
  have shape: "is_2x2 ?cov" by (simp add: is_2x2_def)
  have psd: "psd2 ?cov" by (rule unit_covariance_psd [OF assms(3,4)])
  from assms(1,2) psd obtain d g' where
    "multivariate_normal g [0, 0] ?cov n = Inr (d, g')" and "int (length d) = n"
    unfolding mvnormal_ok_def by (metis length_Cons list.size(3) less_imp_le One_nat_def Suc_1)
  with call shape psd show ?thesis by (intro exI [of _ ?cov] exI [of _ d] exI [of _ g']) simp
qed

theorem generate_data_covariance_witness:
  "mvnormal_ok affine_mvnormal \<and> (0::int) < 3 \<and> - 1 \<le> (1 / 2 :: real) \<and> (1 / 2 :: real) \<le> 1
   \<and> (\<exists>cov d g'. generate_data affine_mvnormal 1 3 (1 / 2) = affine_mvnormal 1 [0, 0] cov 3
           \<and> is_2x2 cov
           \<and> cov ! 0 ! 0 = 1 \<and> cov ! 1 ! 1 = 1
           \<and> cov ! 0 ! 1 = 1 / 2 \<and> cov ! 1 ! 0 = 1 / 2
           \<and> psd2 cov
           \<and> affine_mvnormal 1 [0, 0] cov 3 = Inr (d, g') \<and> int (length d) = 3)"
proof -
  have n: "(0::int) < 3" by simp
  have lo: "- 1 \<le> (1 / 2 :: real)" by simp
  have hi: "(1 / 2 :: real) \<le> 1" by simp
  show ?thesis
    by (rule conjI [OF affine_mvnormal_ok conjI [OF n conjI [OF lo conjI [OF hi
          generate_data_covariance [OF affine_mvnormal_ok n lo hi]]]]])
qed

text \<open>
  Claim C4, as the code has it. The code has no policy for a degenerate resample. When
  the sample of round \<open>i\<close> has zero variance in a column, whatever \<^verbatim>\<open>np.corrcoef\<close>
  returns for it is stored as element \<open>i\<close>: NaN or a number in \<open>[-1, 1]\<close> that rounding
  produced, and NaN for certain when the column holds only zeros. Nothing is redrawn:
  the output has \<open>B\<close> elements and the generator has advanced by exactly \<open>B\<close> draws.
  Nothing is excluded: when the stored value is NaN, the mean and both percentiles are
  NaN and \<^verbatim>\<open>np.histogram\<close> raises \<^verbatim>\<open>ValueError\<close>; when all stored values are
  numbers, the mean and the percentiles are taken over all \<open>B\<close> of them.
\<close>

theorem degenerate_resample_stored:
  assumes "randint_ok randint" and "data \<noteq> []" and "0 \<le> B" and "i < nat B"
    and "degenerate (bootstrap_sample randint g data i)"
  shows "\<exists>out g'. bootstrap_correlation randint rounding g data B = Inr (out, g')
           \<and> int (length out) = B
           \<and> g' = draw_state randint (length data) g (nat B)
           \<and> out ! i = np_corrcoef01 rounding (bootstrap_sample randint g data i)
           \<and> (out ! i = None \<or> (\<exists>r. out ! i = Some r \<and> - 1 \<le> r \<and> r \<le> 1))
           \<and> (zero_column (bootstrap_sample randint g data i) \<longrightarrow> out ! i = None)
           \<and> (out ! i = None \<longrightarrow>
                 np_mean out = None \<and> confidence_interval out = Inr [None, None]
                 \<and> hist_data out = Inl ValueError)
           \<and> (\<forall>xs. those out = Some xs \<longrightarrow>
                 length xs = nat B
                 \<and> np_mean out = Some (sum_list xs / real (nat B))
                 \<and> confidence_interval out
                     = Inr [Some (percentile_linear xs (25 / 10)),
                            Some (percentile_linear xs (975 / 10))])"
proof -
  let ?s = "bootstrap_sample randint g data i"
  let ?out = "map (\<lambda>i. np_corrcoef01 rounding (bootstrap_sample randint g data i)) [0..<nat B]"
  have run: "bootstrap_correlation randint rounding g data B
             = Inr (?out, draw_state randint (length data) g (nat B))"
    by (rule bootstrap_correlation_rounds_eq [OF assms(1,2)])
  have len: "int (length ?out) = B" using assms(3) by simp
  from assms(4) have at: "?out ! i = np_corrcoef01 rounding ?s" by simp
  have range: "?out ! i = None \<or> (\<exists>r. ?out ! i = Some r \<and> - 1 \<le> r \<and> r \<le> 1)"
  proof (cases "np_corrcoef01 rounding ?s")
    case None
    with at show ?thesis by simp
  next
    case (Some r)
    with np_corrcoef01_range [OF Some] at show ?thesis by simp
  qed
  have zero: "zero_column ?s \<longrightarrow> ?out ! i = None"
    using assms(5) by (simp only: at) (simp add: np_corrcoef01_zero_column)
  have nan: "?out ! i = None \<longrightarrow>
               np_mean ?out = None \<and> confidence_interval ?out = Inr [None, None]
               \<and> hist_data ?out = Inl ValueError"
  proof
    assume n: "?out ! i = None"
    from assms(4) have "i < length ?out" by simp
    then have "?out ! i \<in> set ?out" by (rule nth_mem)
    with n have "None \<in> set ?out" by simp
    from nan_propagates [OF this]
    show "np_mean ?out = None \<and> confidence_interval ?out = Inr [None, None]
               \<and> hist_data ?out = Inl ValueError" by blast
  qed
  from assms(4) have ne: "?out \<noteq> []" by auto
  have l: "length ?out = nat B" by simp
  have all: "\<forall>xs. those ?out = Some xs \<longrightarrow>
                 length xs = nat B
                 \<and> np_mean ?out = Some (sum_list xs / real (nat B))
                 \<and> confidence_interval ?out
                     = Inr [Some (percentile_linear xs (25 / 10)),
                            Some (percentile_linear xs (975 / 10))]"
    using aggregates_over_all [OF _ ne] by (simp only: l) blast
  from run len at range zero nan all show ?thesis
    by (intro exI [of _ ?out] exI [of _ "draw_state randint (length data) g (nat B)"] conjI)
       (assumption | rule refl)+
qed

theorem degenerate_resample_stored_witness:
  "randint_ok counter_randint
   \<and> [(1 / 10, 1 / 5), (1 / 10, 1 / 5), (1 / 10, 1 / 5)] \<noteq> ([] :: dataset)
   \<and> (0::int) \<le> 1 \<and> 0 < nat 1
   \<and> degenerate (bootstrap_sample counter_randint 1
                    [(1 / 10, 1 / 5), (1 / 10, 1 / 5), (1 / 10, 1 / 5)] 0)
   \<and> (\<exists>out g'. bootstrap_correlation counter_randint rounding_one 1
                   [(1 / 10, 1 / 5), (1 / 10, 1 / 5), (1 / 10, 1 / 5)] 1 = Inr (out, g')
           \<and> int (length out) = 1
           \<and> g' = draw_state counter_randint
                    (length [(1 / 10, 1 / 5), (1 / 10, 1 / 5), (1 / 10, 1 / 5) :: real \<times> real])
                    1 (nat 1)
           \<and> out ! 0 = np_corrcoef01 rounding_one
                          (bootstrap_sample counter_randint 1
                             [(1 / 10, 1 / 5), (1 / 10, 1 / 5), (1 / 10, 1 / 5)] 0)
           \<and> (out ! 0 = None \<or> (\<exists>r. out ! 0 = Some r \<and> - 1 \<le> r \<and> r \<le> 1))
           \<and> (zero_column (bootstrap_sample counter_randint 1
                              [(1 / 10, 1 / 5), (1 / 10, 1 / 5), (1 / 10, 1 / 5)] 0)
                \<longrightarrow> out ! 0 = None)
           \<and> (out ! 0 = None \<longrightarrow>
                 np_mean out = None \<and> confidence_interval out = Inr [None, None]
                 \<and> hist_data out = Inl ValueError)
           \<and> (\<forall>xs. those out = Some xs \<longrightarrow>
                 length xs = nat 1
                 \<and> np_mean out = Some (sum_list xs / real (nat 1))
                 \<and> confidence_interval out
                     = Inr [Some (percentile_linear xs (25 / 10)),
                            Some (percentile_linear xs (975 / 10))]))"
proof -
  have d: "[(1 / 10, 1 / 5), (1 / 10, 1 / 5), (1 / 10, 1 / 5)] \<noteq> ([] :: dataset)" by simp
  have b: "(0::int) \<le> 1" by simp
  have i: "0 < nat 1" by simp
  have dg: "degenerate (bootstrap_sample counter_randint 1
                    [(1 / 10, 1 / 5), (1 / 10, 1 / 5), (1 / 10, 1 / 5)] 0)"
    by (simp only: example_constant_rows)
  show ?thesis
    by (rule conjI [OF counter_randint_ok conjI [OF d conjI [OF b conjI [OF i conjI [OF dg
          degenerate_resample_stored [OF counter_randint_ok d b i dg]]]]]])
qed

text \<open>
  Claim C4 as stated fails. With the dataset \<open>[(0,0), (1,2), (2,1)]\<close> and the counter
  source started at 1, the third resample is three copies of row 0, so both columns hold
  only zeros. The output keeps a NaN in third place (the iteration is not redrawn),
  and the aggregates are not computed without it: the mean is NaN where the mean of the
  two defined values is \<open>1/2\<close>, the interval is \<open>(NaN, NaN)\<close> where the interval of
  the two defined values is \<open>(1/2, 1/2)\<close>, and the summaries of the script stop with
  \<^verbatim>\<open>ValueError\<close>.
\<close>

theorem degenerate_policy_counterexample:
  "bootstrap_correlation counter_randint rounding_one 1 [(0, 0), (1, 2), (2, 1)] 3
     = Inr ([Some (1 / 2), Some (1 / 2), None], 4)
   \<and> bootstrap_sample counter_randint 1 [(0, 0), (1, 2), (2, 1)] 2 = [(0, 0), (0, 0), (0, 0)]
   \<and> zero_variance (map fst [(0, 0), (0, 0), (0, 0) :: real \<times> real])
   \<and> np_mean [Some (1 / 2), Some (1 / 2), None] = None
   \<and> np_mean [Some (1 / 2), Some (1 / 2)] = Some (1 / 2)
   \<and> confidence_interval [Some (1 / 2), Some (1 / 2), None] = Inr [None, None]
   \<and> confidence_interval [Some (1 / 2), Some (1 / 2)] = Inr [Some (1 / 2), Some (1 / 2)]
   \<and> summaries [Some (1 / 2), Some (1 / 2), None] = Inl ValueError"
proof -
  have zv: "zero_variance (map fst [(0, 0), (0, 0), (0, 0) :: real \<times> real])"
    by (simp add: zero_variance_def sq_dev_def np_mean_real_def)
  have m1: "np_mean [Some (1 / 2), Some (1 / 2), None] = None"
    by (simp add: np_mean_def)
  have m2: "np_mean [Some (1 / 2), Some (1 / 2)] = Some (1 / 2)"
    by (simp add: np_mean_def np_mean_real_def)
  have c1: "confidence_interval [Some (1 / 2), Some (1 / 2), None] = Inr [None, None]"
    by (simp add: confidence_interval_def np_percentile_def)
  have c2: "confidence_interval [Some (1 / 2), Some (1 / 2)] = Inr [Some (1 / 2), Some (1 / 2)]"
    by (simp add: confidence_interval_def np_percentile_def percentile_linear_def)
  have s: "summaries [Some (1 / 2), Some (1 / 2), None] = Inl ValueError"
    by (simp add: summaries_def hist_data_def np_histogram_def)
  show ?thesis
    by (rule conjI [OF example_run conjI [OF example_sample2 conjI [OF zv conjI [OF m1
          conjI [OF m2 conjI [OF c1 conjI [OF c2 s]]]]]]])
qed

text \<open>
  Claim C5. For a non-empty dataset and \<open>B \<ge> 1\<close>, if no resample is degenerate then
  every value of the returned sequence is a number in \<open>[-1, 1]\<close>: element \<open>i\<close> is the
  Pearson coefficient of the sample of round \<open>i\<close>, which the Cauchy-Schwarz inequality
  bounds, so that the clipping of \<^verbatim>\<open>np.corrcoef\<close> changes nothing.
\<close>

theorem bootstrap_correlation_bounds:
  assumes "randint_ok randint" and "data \<noteq> []" and "1 \<le> B"
    and "\<forall>i < nat B. \<not> degenerate (bootstrap_sample randint g data i)"
  shows "\<exists>out g'. bootstrap_correlation randint rounding g data B = Inr (out, g')
           \<and> int (length out) = B
           \<and> (\<forall>i < nat B. out ! i = Some (pearson_r (bootstrap_sample randint g data i)))
           \<and> (\<forall>c \<in> set out. \<exists>r. c = Some r \<and> - 1 \<le> r \<and> r \<le> 1)"
proof -
  let ?out = "map (\<lambda>i. np_corrcoef01 rounding (bootstrap_sample randint g data i)) [0..<nat B]"
  have run: "bootstrap_correlation randint rounding g data B
             = Inr (?out, draw_state randint (length data) g (nat B))"
    by (rule bootstrap_correlation_rounds_eq [OF assms(1,2)])
  have len: "int (length ?out) = B" using assms(3) by simp
  have at: "\<forall>i < nat B. ?out ! i = Some (pearson_r (bootstrap_sample randint g data i))"
    using assms(4) by (simp add: np_corrcoef01_pearson)
  have bnd: "\<forall>c \<in> set ?out. \<exists>r. c = Some r \<and> - 1 \<le> r \<and> r \<le> 1"
  proof
    fix c assume "c \<in> set ?out"
    then obtain i where i: "i < nat B"
      and c: "c = np_corrcoef01 rounding (bootstrap_sample randint g data i)" by auto
    from i assms(4) have "c = Some (pearson_r (bootstrap_sample randint g data i))"
      by (simp add: c np_corrcoef01_pearson)
    with pearson_r_bounds [of "bootstrap_sample randint g data i"]
    show "\<exists>r. c = Some r \<and> - 1 \<le> r \<and> r \<le> 1" by blast
  qed
  from run len at bnd show ?thesis by blast
qed

theorem bootstrap_correlation_bounds_witness:
  "randint_ok counter_randint \<and> [(0, 0), (1, 2), (2, 1)] \<noteq> ([] :: dataset) \<and> (1::int) \<le> 2
   \<and> \<not> degenerate (bootstrap_sample counter_randint 1 [(0, 0), (1, 2), (2, 1)] 0)
   \<and> \<not> degenerate (bootstrap_sample counter_randint 1 [(0, 0), (1, 2), (2, 1)] (Suc 0))
   \<and> (\<exists>out g'. bootstrap_correlation counter_randint rounding_one 1 [(0, 0), (1, 2), (2, 1)] 2 = Inr (out, g')
           \<and> int (length out) = 2
           \<and> (\<forall>i < nat 2. out ! i
                  = Some (pearson_r (bootstrap_sample counter_randint 1 [(0, 0), (1, 2), (2, 1)] i)))
           \<and> (\<forall>c \<in> set out. \<exists>r. c = Some r \<and> - 1 \<le> r \<and> r \<le> 1))"
proof -
  have d: "[(0, 0), (1, 2), (2, 1)] \<noteq> ([] :: dataset)" by simp
  have b: "(1::int) \<le> 2" by simp
  have r0: "\<not> degenerate (bootstrap_sample counter_randint 1 [(0, 0), (1, 2), (2, 1)] 0)"
    and r1: "\<not> degenerate (bootstrap_sample counter_randint 1 [(0, 0), (1, 2), (2, 1)] (Suc 0))"
    using example_regular_rounds by simp_all
  show ?thesis
    by (rule conjI [OF counter_randint_ok conjI [OF d conjI [OF b conjI [OF r0 conjI [OF r1
          bootstrap_correlation_bounds [OF counter_randint_ok d b example_regular_rounds]]]]]])
qed

text \<open>
  Claim C6. With a seeded source, repeated calls with identical arguments give identical
  results. The source is a relation here, so that calls may differ at all: for a source
  and a sampler whose state determines every outcome, any two results of
  \<^verbatim>\<open>generate_data\<close>, any two results of \<^verbatim>\<open>bootstrap_correlation\<close> and any two
  results of the two in sequence, each pair started in the same state with the same
  arguments, are equal (output sequence and final state). The script itself adds no
  choice of its own; with an unseeded source two calls can differ
  (\<open>unseeded_runs_differ\<close>).
\<close>

theorem seeded_runs_agree:
  assumes "seeded_samples samples" and "seeded_draws draws"
    and "generate_data_rel samples g n correlation a1"
    and "generate_data_rel samples g n correlation a2"
    and "bootstrap_correlation_rel draws rounding g data B b1"
    and "bootstrap_correlation_rel draws rounding g data B b2"
    and "run_pipeline_rel samples draws rounding g n correlation B r1"
    and "run_pipeline_rel samples draws rounding g n correlation B r2"
  shows "a1 = a2 \<and> b1 = b2 \<and> r1 = r2"
proof (intro conjI)
  from assms(1,3,4) show "a1 = a2" by (rule generate_data_rel_single_valued)
  from assms(2,5,6) show "b1 = b2" by (rule bootstrap_correlation_rel_single_valued)
  from assms(1,2,7,8) show "r1 = r2" by (rule run_pipeline_rel_single_valued)
qed

theorem seeded_runs_agree_witness:
  "seeded_samples (of_mvnormal affine_mvnormal) \<and> seeded_draws (of_randint counter_randint)
   \<and> generate_data_rel (of_mvnormal affine_mvnormal) 1 3 (1 / 2)
        (Inr ([(1, 1 / 2), (2, 1), (3, 3 / 2)], 4))
   \<and> bootstrap_correlation_rel (of_randint counter_randint) rounding_one 1
        [(0, 0), (1, 2), (2, 1)] 2 (Inr ([Some (1 / 2), Some (1 / 2)], 3))
   \<and> run_pipeline_rel (of_mvnormal affine_mvnormal) (of_randint counter_randint) rounding_one
        1 3 (1 / 2) 2 (Inr ([(1, 1 / 2), (2, 1), (3, 3 / 2)], [Some 1, Some 1], 6))
   \<and> (Inr ([(1, 1 / 2), (2, 1), (3, 3 / 2)], 4) :: error + dataset \<times> nat)
       = Inr ([(1, 1 / 2), (2, 1), (3, 3 / 2)], 4)
   \<and> (Inr ([Some (1 / 2), Some (1 / 2)], 3) :: error + real option list \<times> nat)
       = Inr ([Some (1 / 2), Some (1 / 2)], 3)
   \<and> (Inr ([(1, 1 / 2), (2, 1), (3, 3 / 2)], [Some 1, Some 1], 6)
        :: error + dataset \<times> real option list \<times> nat)
       = Inr ([(1, 1 / 2), (2, 1), (3, 3 / 2)], [Some 1, Some 1], 6)"
proof -
  have a: "generate_data_rel (of_mvnormal affine_mvnormal) 1 3 (1 / 2)
        (Inr ([(1, 1 / 2), (2, 1), (3, 3 / 2)], 4))"
    by (simp only: generate_data_rel_of_mvnormal example_generate)
  have b: "bootstrap_correlation_rel (of_randint counter_randint) rounding_one 1
        [(0, 0), (1, 2), (2, 1)] 2 (Inr ([Some (1 / 2), Some (1 / 2)], 3))"
    by (simp only: bootstrap_correlation_rel_of_randint example_run2)
  have r: "run_pipeline_rel (of_mvnormal affine_mvnormal) (of_randint counter_randint)
        rounding_one 1 3 (1 / 2) 2 (Inr ([(1, 1 / 2), (2, 1), (3, 3 / 2)], [Some 1, Some 1], 6))"
    by (simp only: run_pipeline_rel_of_functions example_pipeline)
  show ?thesis
    by (rule conjI [OF seeded_of_mvnormal conjI [OF seeded_of_randint conjI [OF a conjI [OF b
          conjI [OF r seeded_runs_agree [OF seeded_of_mvnormal seeded_of_randint a a b b r r]]]]]])
qed

text \<open>
  Claim C7. For a non-empty distribution of real values, the confidence interval at the
  percentiles 2.5 and 97.5 is a pair of numbers \<open>(lower, upper)\<close> with
  \<open>lower \<le> upper\<close>: the linearly interpolated percentile is monotone in the
  percentage. (A distribution holding a NaN is the subject of claim C4.)
\<close>

theorem confidence_interval_ordered:
  assumes "distribution \<noteq> []"
  shows "\<exists>lower upper. confidence_interval (map Some distribution) = Inr [Some lower, Some upper]
           \<and> lower \<le> upper"
proof -
  have "percentile_linear distribution (25 / 10) \<le> percentile_linear distribution (975 / 10)"
    by (rule percentile_linear_mono [OF assms]) simp_all
  with assms show ?thesis
    by (simp add: confidence_interval_def np_percentile_def those_map_Some)
qed

theorem confidence_interval_ordered_witness:
  "[3, 1, 2] \<noteq> ([] :: real list)
   \<and> (\<exists>lower upper. confidence_interval (map Some [3, 1, 2]) = Inr [Some lower, Some upper]
           \<and> lower \<le> upper)"
proof -
  have d: "[3, 1, 2] \<noteq> ([] :: real list)" by simp
  show ?thesis by (rule conjI [OF d confidence_interval_ordered [OF d]])
qed

text \<open>
  Claim C8. For \<open>n \<ge> 2\<close> and a correlation in \<open>[-1, 1]\<close>, \<^verbatim>\<open>generate_data\<close>
  returns a dataset of exactly \<open>n\<close> paired observations.
\<close>

theorem generate_data_length:
  assumes "mvnormal_ok multivariate_normal" and "2 \<le> n"
    and "- 1 \<le> correlation" and "correlation \<le> 1"
  shows "\<exists>data g'. generate_data multivariate_normal g n correlation = Inr (data, g')
           \<and> int (length data) = n"
proof -
  have psd: "psd2 [[1, correlation], [correlation, 1]]"
    by (rule unit_covariance_psd [OF assms(3,4)])
  have m: "length [0, 0 :: real] = 2" by simp
  from assms(2) have "0 \<le> n" by simp
  with assms(1) psd m obtain d g' where
    "multivariate_normal g [0, 0] [[1, correlation], [correlation, 1]] n = Inr (d, g')"
    and "int (length d) = n"
    unfolding mvnormal_ok_def by blast
  then show ?thesis by (simp add: generate_data_def)
qed

theorem generate_data_length_witness:
  "mvnormal_ok affine_mvnormal \<and> (2::int) \<le> 3 \<and> - 1 \<le> (1 / 2 :: real) \<and> (1 / 2 :: real) \<le> 1
   \<and> (\<exists>data g'. generate_data affine_mvnormal 1 3 (1 / 2) = Inr (data, g')
           \<and> int (length data) = 3)"
proof -
  have n: "(2::int) \<le> 3" by simp
  have lo: "- 1 \<le> (1 / 2 :: real)" by simp
  have hi: "(1 / 2 :: real) \<le> 1" by simp
  show ?thesis
    by (rule conjI [OF affine_mvnormal_ok conjI [OF n conjI [OF lo conjI [OF hi
          generate_data_length [OF affine_mvnormal_ok n lo hi]]]]])
qed



text \<open>
  Claim C10. For a non-empty dataset held in the store, \<^verbatim>\<open>resample\<close> returns a
  new array, different from its argument, of the same length, in which every
  observation is a row of the argument; the argument and every other array in use
  are left as they were. The result is the one the value-level \<open>resample\<close> computes.
\<close>

theorem resample_selects_rows:
  assumes "randint_ok randint" and "cells h data \<noteq> []" and "data < next_free h"
  shows "\<exists>sample g' h'. resample_heap randint g h data = Inr (sample, g', h')
           \<and> resample randint g (cells h data) = Inr (cells h' sample, g')
           \<and> (\<forall>row \<in> set (cells h' sample). row \<in> set (cells h data))
           \<and> length (cells h' sample) = length (cells h data)
           \<and> sample \<noteq> data
           \<and> cells h' data = cells h data
           \<and> (\<forall>p < next_free h. cells h' p = cells h p)"
  using assms by (rule resample_heap_effect)

theorem resample_selects_rows_witness:
  "randint_ok counter_randint \<and> cells example_heap 0 \<noteq> [] \<and> 0 < next_free example_heap
   \<and> (\<exists>sample g' h'. resample_heap counter_randint 1 example_heap 0 = Inr (sample, g', h')
           \<and> resample counter_randint 1 (cells example_heap 0) = Inr (cells h' sample, g')
           \<and> (\<forall>row \<in> set (cells h' sample). row \<in> set (cells example_heap 0))
           \<and> length (cells h' sample) = length (cells example_heap 0)
           \<and> sample \<noteq> 0
           \<and> cells h' 0 = cells example_heap 0
           \<and> (\<forall>p < next_free example_heap. cells h' p = cells example_heap p))"
  by (rule conjI [OF counter_randint_ok conjI [OF example_heap_facts(1)
        conjI [OF example_heap_facts(2)
          resample_selects_rows [OF counter_randint_ok example_heap_facts]]]])

end
